theory Spec2Isabelle
  imports Main "HOL-Library.Word" "HOL-Library.AList" "HOL-Library.Multiset" "HOL-Library.Sublist"
begin

section \<open>The symbol table of the Lobster compiler front end (idents.h)\<close>

text \<open>
  The C++ structs of \<^verbatim>\<open>idents.h\<close> are embedded as records, objects allocated with
  \<^verbatim>\<open>new\<close> live in per-kind memories (lists indexed by address), pointers are
  addresses (\<open>addr option\<close> where the code stores or tests a null pointer), and the
  \<^verbatim>\<open>std::map\<close>s are association lists read with \<open>map_of\<close>. C++ \<^verbatim>\<open>int\<close> is a
  32-bit word, \<^verbatim>\<open>short\<close> a 16-bit word, and \<^verbatim>\<open>size_t\<close> values, which are
  always sizes of vectors here, are natural numbers. A \<^verbatim>\<open>SubFunction\<close> is only ever
  pointed to by the operations embedded here, so it is an address and nothing more.
  Assertions are taken as compiled in.
\<close>

subsection \<open>Failures\<close>

text \<open>
  \<^verbatim>\<open>lex.Error(msg)\<close> never returns (it throws); \<^verbatim>\<open>Serialize\<close> throws a string;
  \<^verbatim>\<open>assert\<close> aborts; \<^verbatim>\<open>back()\<close> on an empty vector, an index out of range and a
  dereference of an address that holds no object are undefined behaviour. Each is a
  failure value; a failing operation returns it together with the state at that point.
\<close>

datatype failure =
    LexError string
  | Thrown string
  | AssertionFailure
  | Undefined

type_synonym addr = nat
type_synonym int32 = "32 word"
type_synonym short = "16 word"

type_synonym ('s, 'a) result = "(failure \<times> 's) + ('a \<times> 's)"

definition deref :: "'a list \<Rightarrow> addr \<Rightarrow> 'a option" where
  "deref mem a = (if a < length mem then Some (mem ! a) else None)"

text \<open>
  \<^verbatim>\<open>v[i]\<close> with an \<^verbatim>\<open>int\<close> index: a negative index converts to a \<^verbatim>\<open>size_t\<close>
  beyond the size of any vector.
\<close>

definition vec_at :: "'a list \<Rightarrow> int32 \<Rightarrow> 'a option" where
  "vec_at v i = (if 0 \<le> sint i \<and> nat (sint i) < length v then Some (v ! nat (sint i)) else None)"

subsection \<open>Entities\<close>

datatype ValueType = V_UNDEFINED | V_STRUCT | V_OTHER nat

record Type =
  t :: ValueType
  idx :: int32

text \<open>
  Modelled from the spec: the default constructor of \<^verbatim>\<open>Type\<close> (the type collaborator is
  outside \<^verbatim>\<open>idents.h\<close>); no operation below reads the value it gives.
\<close>

definition Type_default :: Type where
  "Type_default = \<lparr>t = V_UNDEFINED, idx = - 1\<rparr>"

record LineInfo =
  line :: int32
  fileidx :: int32
  bytecodestart :: int32

text \<open>
  Modelled from the spec: the base struct \<^verbatim>\<open>Name\<close> is declared outside \<^verbatim>\<open>idents.h\<close>.
  It has the display name and the index in the owning table (the spec's NamedEntity) and
  the flag \<^verbatim>\<open>isprivate\<close> that \<^verbatim>\<open>EndOfInclude\<close> reads; the constructor
  \<^verbatim>\<open>Name(name, idx)\<close> is taken to leave the flag unset.
\<close>

record Name =
  name :: string
  idx :: int32
  isprivate :: bool

record UniqueField =
  type :: Type
  sf :: "addr option"

definition UniqueField_new :: "Type \<Rightarrow> addr option \<Rightarrow> UniqueField" where
  "UniqueField_new ty fld = \<lparr>type = ty, sf = fld\<rparr>"

record Ident = Name +
  line :: int32
  scope :: nat
  prev :: "addr option"
  sf :: "addr option"
  single_assignment :: bool
  constant' :: bool
  static_constant :: bool
  logvaridx :: int32
  type :: Type

definition Ident_new :: "string \<Rightarrow> int32 \<Rightarrow> int32 \<Rightarrow> nat \<Rightarrow> Ident" where
  "Ident_new n l i sc =
     \<lparr>name = n, idx = i, isprivate = False, line = l, scope = sc, prev = None, sf = None,
      single_assignment = True, constant' = False, static_constant = False,
      logvaridx = - 1, type = Type_default\<rparr>"

definition Assign :: "Ident \<Rightarrow> (Ident, unit) result" where
  "Assign ident =
     (let ident1 = ident\<lparr>single_assignment := False\<rparr>
      in if constant' ident1
         then Inl (LexError (''variable '' @ name ident1 @ '' is constant''), ident1)
         else Inr ((), ident1))"

record FieldOffset =
  structidx :: short
  offset :: short

text \<open>The constructor takes two \<^verbatim>\<open>int\<close>s and stores them in \<^verbatim>\<open>short\<close>s.\<close>

definition FieldOffset_new :: "int32 \<Rightarrow> int32 \<Rightarrow> FieldOffset" where
  "FieldOffset_new si off = \<lparr>structidx = ucast si, offset = ucast off\<rparr>"

record SharedField = Name +
  offsets :: "FieldOffset list"
  numunique :: int32
  fo1 :: FieldOffset
  foN :: FieldOffset
  offsettable :: int32

definition SharedField_new :: "string \<Rightarrow> int32 \<Rightarrow> SharedField" where
  "SharedField_new n i =
     \<lparr>name = n, idx = i, isprivate = False, offsets = [], numunique = 0,
      fo1 = FieldOffset_new (- 1) (- 1), foN = FieldOffset_new (- 1) (- 1),
      offsettable = - 1\<rparr>"

definition NewFieldUse :: "SharedField \<Rightarrow> FieldOffset \<Rightarrow> SharedField" where
  "NewFieldUse fld nfo =
     (let fld1 = (if list_ex (\<lambda>fo. offset fo = offset nfo) (offsets fld) then fld
                  else fld\<lparr>numunique := numunique fld + 1\<rparr>)
      in fld1\<lparr>offsets := offsets fld1 @ [nfo]\<rparr>)"

record Struct = Name +
  fields' :: "UniqueField list"
  superclass :: "addr option"
  superclassidx :: int32
  readonly :: bool

definition Struct_new :: "string \<Rightarrow> int32 \<Rightarrow> Struct" where
  "Struct_new n i =
     \<lparr>name = n, idx = i, isprivate = False, fields' = [], superclass = None,
      superclassidx = - 1, readonly = False\<rparr>"

definition Has :: "Struct \<Rightarrow> addr option \<Rightarrow> UniqueField option" where
  "Has st fld = find (\<lambda>uf. UniqueField.sf uf = fld) (fields' st)"

record Function = Name +
  nargs :: int32
  bytecodestart :: int32
  subf :: "addr option"
  sibf :: "addr option"
  multimethod :: bool
  scopelevel :: int32
  retvals :: int32
  ncalls :: int32

definition Function_new :: "string \<Rightarrow> int32 \<Rightarrow> int32 \<Rightarrow> int32 \<Rightarrow> Function" where
  "Function_new n i na sl =
     \<lparr>name = n, idx = i, isprivate = False, nargs = na, bytecodestart = 0, subf = None,
      sibf = None, multimethod = False, scopelevel = sl, retvals = 0, ncalls = 0\<rparr>"

subsection \<open>The symbol table\<close>

text \<open>
  The four memories hold the objects the table allocates with \<^verbatim>\<open>new\<close>; an address is
  the position of its object, so \<^verbatim>\<open>new\<close> appends. The maps \<open>structs\<close> and
  \<open>fields'\<close> are read with \<^verbatim>\<open>operator[]\<close>, which inserts a null pointer for a key
  that is absent, so their values may be null; \<open>idents\<close> and \<open>functions'\<close> are read
  with \<^verbatim>\<open>find\<close> and only ever assigned pointers to objects.
\<close>

record SymbolTable =
  idents :: "(string \<times> addr) list"
  identtable :: "addr list"
  identstack :: "addr list"
  structs :: "(string \<times> addr option) list"
  structtable :: "addr list"
  fields' :: "(string \<times> addr option) list"
  fieldtable :: "addr list"
  functions' :: "(string \<times> addr) list"
  functiontable :: "addr list"
  filenames :: "string list"
  scopelevels :: "nat list"
  withstack :: "(Type \<times> addr option) list"
  withstacklevels :: "nat list"
  uses_frame_state :: bool
  ident_mem :: "Ident list"
  struct_mem :: "Struct list"
  field_mem :: "SharedField list"
  function_mem :: "Function list"

definition SymbolTable_new :: SymbolTable where
  "SymbolTable_new =
     \<lparr>idents = [], identtable = [], identstack = [], structs = [], structtable = [],
      fields' = [], fieldtable = [], functions' = [], functiontable = [], filenames = [],
      scopelevels = [], withstack = [], withstacklevels = [], uses_frame_state = False,
      ident_mem = [], struct_mem = [], field_mem = [], function_mem = []\<rparr>"

text \<open>\<^verbatim>\<open>m[key]\<close> on a map of pointers: the value, and the map with a null entry added
  when the key was absent.\<close>

definition map_index :: "(string \<times> addr option) list \<Rightarrow> string \<Rightarrow> addr option \<times> (string \<times> addr option) list" where
  "map_index m k =
     (case map_of m k of
        None \<Rightarrow> (None, AList.update k None m)
      | Some p \<Rightarrow> (p, m))"

definition FieldUse :: "string \<Rightarrow> SymbolTable \<Rightarrow> addr option" where
  "FieldUse nm s = (case map_of (fields' s) nm of Some p \<Rightarrow> p | None \<Rightarrow> None)"

text \<open>The loop of \<^verbatim>\<open>LookupWithStruct\<close> over the with-stack; \<open>ident\<close> is the reference
  parameter \<^verbatim>\<open>id\<close>.\<close>

fun with_scan :: "SymbolTable \<Rightarrow> addr \<Rightarrow> (Type \<times> addr option) list \<Rightarrow> addr option \<Rightarrow> failure + addr option" where
  "with_scan s fld [] ident = Inr ident"
| "with_scan s fld (wp # wps) ident =
     (case vec_at (structtable s) (Type.idx (fst wp)) of
        None \<Rightarrow> Inl Undefined
      | Some sp \<Rightarrow>
          (case deref (struct_mem s) sp of
             None \<Rightarrow> Inl Undefined
           | Some st \<Rightarrow>
               if Has st (Some fld) \<noteq> None
               then (if ident \<noteq> None
                     then (case deref (field_mem s) fld of
                             None \<Rightarrow> Inl Undefined
                           | Some f \<Rightarrow> Inl (LexError (''access to ambiguous field: '' @ name f)))
                     else with_scan s fld wps (snd wp))
               else with_scan s fld wps ident))"

text \<open>Returns the shared field (or null) and the final value of \<^verbatim>\<open>id\<close>; the table is
  not changed.\<close>

definition LookupWithStruct :: "string \<Rightarrow> addr option \<Rightarrow> SymbolTable \<Rightarrow> failure + (addr option \<times> addr option)" where
  "LookupWithStruct nm ident s =
     (case FieldUse nm s of
        None \<Rightarrow> Inr (None, ident)
      | Some fld \<Rightarrow>
          if ident \<noteq> None then Inl AssertionFailure
          else (case with_scan s fld (withstack s) ident of
                  Inl e \<Rightarrow> Inl e
                | Inr ident1 \<Rightarrow> Inr (if ident1 \<noteq> None then Some fld else None, ident1)))"

definition LookupLexDefOrDynScope :: "string \<Rightarrow> int32 \<Rightarrow> bool \<Rightarrow> addr option \<Rightarrow> SymbolTable \<Rightarrow> (SymbolTable, addr) result" where
  "LookupLexDefOrDynScope nm ln dynscope sfp s =
     (case (if dynscope then map_of (idents s) nm else None) of
        Some found \<Rightarrow> Inr (found, s)
      | None \<Rightarrow>
         (case LookupWithStruct nm None s of
            Inl e \<Rightarrow> Inl (e, s)
          | Inr (Some fld, _) \<Rightarrow>
              Inl (LexError (''cannot define variable with same name as field in this scope: '' @ nm), s)
          | Inr (None, _) \<Rightarrow>
              if scopelevels s = [] then Inl (Undefined, s)
              else
                let ident = length (ident_mem s);
                    obj = (Ident_new nm ln (of_nat (length (identtable s))) (last (scopelevels s)))\<lparr>sf := sfp\<rparr>;
                    s1 = s\<lparr>ident_mem := ident_mem s @ [obj]\<rparr>;
                    push = (\<lambda>s2. Inr (ident, s2\<lparr>identstack := identstack s2 @ [ident],
                                                 identtable := identtable s2 @ [ident]\<rparr>))
                in (case map_of (idents s1) nm of
                      None \<Rightarrow> push (s1\<lparr>idents := AList.update nm ident (idents s1)\<rparr>)
                    | Some old \<Rightarrow>
                        if dynscope then push (s1\<lparr>idents := AList.update nm ident (idents s1)\<rparr>)
                        else
                          (case deref (ident_mem s1) old of
                             None \<Rightarrow> Inl (Undefined, s1)
                           | Some oldobj \<Rightarrow>
                               if last (scopelevels s1) = scope oldobj
                               then Inl (LexError (''identifier redefinition: '' @ name obj), s1)
                               else push (s1\<lparr>ident_mem := (ident_mem s1)[ident := obj\<lparr>prev := Some old\<rparr>],
                                              idents := AList.update nm ident (idents s1)\<rparr>)))))"

definition LookupLexMaybe :: "string \<Rightarrow> SymbolTable \<Rightarrow> addr option" where
  "LookupLexMaybe nm s = map_of (idents s) nm"

definition LookupLexUse :: "string \<Rightarrow> SymbolTable \<Rightarrow> failure + addr" where
  "LookupLexUse nm s =
     (case LookupLexMaybe nm s of
        None \<Rightarrow> Inl (LexError (''unknown identifier: '' @ nm))
      | Some ident \<Rightarrow> Inr ident)"

definition AddWithStruct :: "Type \<Rightarrow> addr option \<Rightarrow> SymbolTable \<Rightarrow> (SymbolTable, unit) result" where
  "AddWithStruct ty ident s =
     (if list_ex (\<lambda>wp. Type.idx (fst wp) = Type.idx ty) (withstack s)
      then Inl (LexError ''type used twice in the same scope with ::'', s)
      else if \<not> 0 \<le> sint (Type.idx ty) then Inl (AssertionFailure, s)
      else Inr ((), s\<lparr>withstack := withstack s @ [(ty, ident)]\<rparr>))"

definition ScopeStart :: "SymbolTable \<Rightarrow> SymbolTable" where
  "ScopeStart s =
     s\<lparr>scopelevels := scopelevels s @ [length (identstack s)],
       withstacklevels := withstacklevels s @ [length (withstack s)]\<rparr>"

text \<open>The body of the first loop of \<^verbatim>\<open>ScopeCleanup\<close>, for the object \<open>obj\<close> of
  \<^verbatim>\<open>identstack.back()\<close>.\<close>

definition pop_ident :: "SymbolTable \<Rightarrow> Ident \<Rightarrow> SymbolTable" where
  "pop_ident s obj =
     (case map_of (idents s) (name obj) of
        None \<Rightarrow> s
      | Some cur \<Rightarrow>
          (case prev obj of
             Some p \<Rightarrow> s\<lparr>idents := AList.update (name obj) p (idents s)\<rparr>
           | None \<Rightarrow> s\<lparr>idents := AList.delete (name obj) (idents s)\<rparr>))
     \<lparr>identstack := butlast (identstack s)\<rparr>"

text \<open>The loop; \<open>lvl\<close> is \<^verbatim>\<open>scopelevels.back()\<close>, which the loop does not change.\<close>

function pop_idents :: "nat \<Rightarrow> SymbolTable \<Rightarrow> failure \<times> SymbolTable + SymbolTable" where
  "pop_idents lvl s =
     (if length (identstack s) > lvl
      then (case deref (ident_mem s) (last (identstack s)) of
              None \<Rightarrow> Inl (Undefined, s)
            | Some obj \<Rightarrow> pop_idents lvl (pop_ident s obj))
      else Inr s)"
  by pat_completeness auto
termination
  by (relation "measure (\<lambda>(lvl, s). length (identstack s))")
     (auto simp: pop_ident_def split: option.splits)

declare pop_idents.simps [simp del]

text \<open>The second loop pops the with-stack until its size is at most the saved one, which
  \<open>take\<close> does.\<close>

definition ScopeCleanup :: "SymbolTable \<Rightarrow> (SymbolTable, unit) result" where
  "ScopeCleanup s =
     (if scopelevels s = [] then Inl (Undefined, s)
      else (case pop_idents (last (scopelevels s)) s of
              Inl e \<Rightarrow> Inl e
            | Inr s1 \<Rightarrow>
                let s2 = s1\<lparr>scopelevels := butlast (scopelevels s1)\<rparr>
                in if withstacklevels s2 = [] then Inl (Undefined, s2)
                   else Inr ((), s2\<lparr>withstack := take (last (withstacklevels s2)) (withstack s2),
                                     withstacklevels := butlast (withstacklevels s2)\<rparr>)))"

definition UnregisterStruct :: "addr \<Rightarrow> SymbolTable \<Rightarrow> (SymbolTable, unit) result" where
  "UnregisterStruct st s =
     (case deref (struct_mem s) st of
        None \<Rightarrow> Inl (Undefined, s)
      | Some obj \<Rightarrow>
          (case map_of (structs s) (name obj) of
             None \<Rightarrow> Inl (AssertionFailure, s)
           | Some p \<Rightarrow> Inr ((), s\<lparr>structs := AList.delete (name obj) (structs s)\<rparr>)))"

definition UnregisterFun :: "addr \<Rightarrow> SymbolTable \<Rightarrow> (SymbolTable, unit) result" where
  "UnregisterFun f s =
     (case deref (function_mem s) f of
        None \<Rightarrow> Inl (Undefined, s)
      | Some obj \<Rightarrow>
          (case map_of (functions' s) (name obj) of
             None \<Rightarrow> Inr ((), s)
           | Some p \<Rightarrow> Inr ((), s\<lparr>functions' := AList.delete (name obj) (functions' s)\<rparr>)))"

text \<open>The loop of \<^verbatim>\<open>EndOfInclude\<close> over the entries of \<open>idents\<close>: the entries kept.
  A failed assertion aborts the process, so the order in which the entries are visited
  cannot be observed.\<close>

fun prune_private :: "Ident list \<Rightarrow> (string \<times> addr) list \<Rightarrow> failure + (string \<times> addr) list" where
  "prune_private mem [] = Inr []"
| "prune_private mem (it # rest) =
     (case deref mem (snd it) of
        None \<Rightarrow> Inl Undefined
      | Some obj \<Rightarrow>
          if isprivate obj
          then (if prev obj \<noteq> None then Inl AssertionFailure else prune_private mem rest)
          else (case prune_private mem rest of
                  Inl e \<Rightarrow> Inl e
                | Inr kept \<Rightarrow> Inr (it # kept)))"

definition EndOfInclude :: "SymbolTable \<Rightarrow> (SymbolTable, unit) result" where
  "EndOfInclude s =
     (case prune_private (ident_mem s) (idents s) of
        Inl e \<Rightarrow> Inl (e, s)
      | Inr kept \<Rightarrow> Inr ((), s\<lparr>idents := kept\<rparr>))"

definition StructDecl :: "string \<Rightarrow> SymbolTable \<Rightarrow> (SymbolTable, addr) result" where
  "StructDecl nm s =
     (let (st, m1) = map_index (structs s) nm;
          s1 = s\<lparr>structs := m1\<rparr>
      in if st \<noteq> None then Inl (LexError (''double declaration of type: '' @ nm), s1)
         else
           let a = length (struct_mem s1);
               s2 = s1\<lparr>struct_mem := struct_mem s1 @ [Struct_new nm (of_nat (length (structtable s1)))]\<rparr>
           in Inr (a, s2\<lparr>structs := AList.update nm (Some a) (structs s2),
                         structtable := structtable s2 @ [a]\<rparr>))"

definition StructUse :: "string \<Rightarrow> SymbolTable \<Rightarrow> (SymbolTable, addr) result" where
  "StructUse nm s =
     (let (st, m1) = map_index (structs s) nm;
          s1 = s\<lparr>structs := m1\<rparr>
      in case st of
           None \<Rightarrow> Inl (LexError (''unknown type: '' @ nm), s1)
         | Some a \<Rightarrow> Inr (a, s1))"

definition FieldDecl :: "string \<Rightarrow> int32 \<Rightarrow> addr \<Rightarrow> SymbolTable \<Rightarrow> (SymbolTable, addr) result" where
  "FieldDecl nm i st s =
     (let (fld0, m1) = map_index (fields' s) nm;
          s1 = s\<lparr>fields' := m1\<rparr>;
          (fld, s2) =
            (case fld0 of
               None \<Rightarrow>
                 let a = length (field_mem s1)
                 in (a, s1\<lparr>field_mem := field_mem s1 @ [SharedField_new nm (of_nat (length (fieldtable s1)))],
                           fields' := AList.update nm (Some a) (fields' s1),
                           fieldtable := fieldtable s1 @ [a]\<rparr>)
             | Some a \<Rightarrow> (a, s1))
      in case deref (struct_mem s2) st of
           None \<Rightarrow> Inl (Undefined, s2)
         | Some stobj \<Rightarrow>
             (case deref (field_mem s2) fld of
                None \<Rightarrow> Inl (Undefined, s2)
              | Some fobj \<Rightarrow>
                  Inr (fld, s2\<lparr>field_mem :=
                                 (field_mem s2)[fld := NewFieldUse fobj (FieldOffset_new (idx stobj) i)]\<rparr>)))"

text \<open>The walk along the \<^verbatim>\<open>sibf\<close> chain in \<^verbatim>\<open>FunctionDecl\<close>. On a cyclic chain
  without the arity the loop never ends: the value is then \<open>None\<close>.\<close>

partial_function (option) find_nargs :: "Function list \<Rightarrow> addr option \<Rightarrow> int32 \<Rightarrow> (failure + addr option) option" where
  "find_nargs mem f na =
     (case f of
        None \<Rightarrow> Some (Inr None)
      | Some a \<Rightarrow>
          (case deref mem a of
             None \<Rightarrow> Some (Inl Undefined)
           | Some obj \<Rightarrow>
               if nargs obj = na then Some (Inr (Some a))
               else find_nargs mem (sibf obj) na))"

text \<open>The second half of \<^verbatim>\<open>FunctionDecl\<close>: allocate, append to the function table, link.\<close>

definition Function_link :: "string \<Rightarrow> int32 \<Rightarrow> SymbolTable \<Rightarrow> (SymbolTable, addr) result" where
  "Function_link nm na s =
     (let f = length (function_mem s);
          obj = Function_new nm (of_nat (length (functiontable s))) na (of_nat (length (scopelevels s)));
          s1 = s\<lparr>function_mem := function_mem s @ [obj],
                 functiontable := functiontable s @ [f]\<rparr>
      in case map_of (functions' s1) nm of
           Some head \<Rightarrow>
             (case deref (function_mem s1) head of
                None \<Rightarrow> Inl (Undefined, s1)
              | Some h \<Rightarrow>
                  let mem1 = (function_mem s1)[f := obj\<lparr>sibf := sibf h\<rparr>]
                  in (case deref mem1 head of
                        None \<Rightarrow> Inl (Undefined, s1)
                      | Some h1 \<Rightarrow>
                          Inr (f, s1\<lparr>function_mem := mem1[head := h1\<lparr>sibf := Some f\<rparr>]\<rparr>)))
         | None \<Rightarrow> Inr (f, s1\<lparr>functions' := AList.update nm f (functions' s1)\<rparr>))"

definition FunctionDecl :: "string \<Rightarrow> int32 \<Rightarrow> SymbolTable \<Rightarrow> (SymbolTable, addr) result option" where
  "FunctionDecl nm na s =
     (case map_of (functions' s) nm of
        None \<Rightarrow> Some (Function_link nm na s)
      | Some head \<Rightarrow>
          (case deref (function_mem s) head of
             None \<Rightarrow> Some (Inl (Undefined, s))
           | Some h \<Rightarrow>
               if scopelevel h \<noteq> of_nat (length (scopelevels s))
               then Some (Inl (LexError (''cannot define a variation of function '' @ nm
                                          @ '' at a different scope level''), s))
               else (case find_nargs (function_mem s) (Some head) na of
                       None \<Rightarrow> None
                     | Some (Inl e) \<Rightarrow> Some (Inl (e, s))
                     | Some (Inr (Some f)) \<Rightarrow> Some (Inr (f, s))
                     | Some (Inr None) \<Rightarrow> Some (Function_link nm na s))))"

definition FindFunction :: "string \<Rightarrow> SymbolTable \<Rightarrow> addr option" where
  "FindFunction nm s = map_of (functions' s) nm"

subsection \<open>Serialization\<close>

text \<open>
  Modelled from the spec: the \<^verbatim>\<open>Serializer\<close> is declared outside \<^verbatim>\<open>idents.h\<close>.
  A call \<^verbatim>\<open>ser(x)\<close> passes \<^verbatim>\<open>x\<close> by reference: it writes \<^verbatim>\<open>x\<close> to the sink or,
  when a read buffer is present (\<^verbatim>\<open>ser.rbuf\<close>), replaces \<^verbatim>\<open>x\<close> by what it reads.
  Each overload is a parameter here: it takes the value of \<^verbatim>\<open>x\<close> and the serializer's
  state \<open>'z\<close> and returns both after the call. For a table of pointers the objects
  pointed to go along.
\<close>

record 'z Serializer =
  rbuf :: "'z \<Rightarrow> bool"
  ser_string :: "string \<Rightarrow> 'z \<Rightarrow> string \<times> 'z"
  ser_bool :: "bool \<Rightarrow> 'z \<Rightarrow> bool \<times> 'z"
  ser_identtable :: "addr list \<times> Ident list \<Rightarrow> 'z \<Rightarrow> (addr list \<times> Ident list) \<times> 'z"
  ser_functiontable :: "addr list \<times> Function list \<Rightarrow> 'z \<Rightarrow> (addr list \<times> Function list) \<times> 'z"
  ser_structtable :: "addr list \<times> Struct list \<Rightarrow> 'z \<Rightarrow> (addr list \<times> Struct list) \<times> 'z"
  ser_fieldtable :: "addr list \<times> SharedField list \<Rightarrow> 'z \<Rightarrow> (addr list \<times> SharedField list) \<times> 'z"
  ser_code :: "int32 list \<Rightarrow> 'z \<Rightarrow> int32 list \<times> 'z"
  ser_filenames :: "string list \<Rightarrow> 'z \<Rightarrow> string list \<times> 'z"
  ser_linenumbers :: "LineInfo list \<Rightarrow> 'z \<Rightarrow> LineInfo list \<times> 'z"

text \<open>\<open>curvers\<close> is the build's \<^verbatim>\<open>__DATE__\<close>. The state of a call is the table, the
  two vectors passed by reference and the serializer.\<close>

definition Serialize :: "'z Serializer \<Rightarrow> string \<Rightarrow> 'z \<Rightarrow> int32 list \<Rightarrow> LineInfo list \<Rightarrow> SymbolTable
    \<Rightarrow> (SymbolTable \<times> int32 list \<times> LineInfo list \<times> 'z, unit) result" where
  "Serialize ser curvers z code linenumbers s =
     (let (vers, z1) = ser_string ser curvers z
      in if rbuf ser z1 \<and> vers \<noteq> curvers
         then Inl (Thrown ''cannot load bytecode from a different version of the compiler'',
                   (s, code, linenumbers, z1))
         else
           let (ufs, z2) = ser_bool ser (uses_frame_state s) z1;
               ((it, im), z3) = ser_identtable ser (identtable s, ident_mem s) z2;
               ((ft, fm), z4) = ser_functiontable ser (functiontable s, function_mem s) z3;
               ((st, sm), z5) = ser_structtable ser (structtable s, struct_mem s) z4;
               ((dt, dm), z6) = ser_fieldtable ser (fieldtable s, field_mem s) z5;
               (code1, z7) = ser_code ser code z6;
               (fns, z8) = ser_filenames ser (filenames s) z7;
               (lns, z9) = ser_linenumbers ser linenumbers z8
           in Inr ((), (s\<lparr>uses_frame_state := ufs, identtable := it, ident_mem := im,
                           functiontable := ft, function_mem := fm,
                           structtable := st, struct_mem := sm,
                           fieldtable := dt, field_mem := dm, filenames := fns\<rparr>,
                        code1, lns, z9)))"

text \<open>A serializer that reads from a list of strings, one string per value read; it
  stands in for the real one where \<^verbatim>\<open>Serialize\<close> is run on a concrete artifact. Only
  the version stamp is decoded; the other values are left as they are.\<close>

definition reader :: "string list Serializer" where
  "reader =
     \<lparr>rbuf = (\<lambda>z. True),
      ser_string = (\<lambda>x z. case z of [] \<Rightarrow> ([], []) | w # ws \<Rightarrow> (w, ws)),
      ser_bool = (\<lambda>x z. (x, tl z)),
      ser_identtable = (\<lambda>x z. (x, tl z)),
      ser_functiontable = (\<lambda>x z. (x, tl z)),
      ser_structtable = (\<lambda>x z. (x, tl z)),
      ser_fieldtable = (\<lambda>x z. (x, tl z)),
      ser_code = (\<lambda>x z. (x, tl z)),
      ser_filenames = (\<lambda>x z. (x, tl z)),
      ser_linenumbers = (\<lambda>x z. (x, tl z))\<rparr>"

subsection \<open>The operations as data\<close>

text \<open>
  The operations of the table that change it, and the state each leaves: the state on
  return or, when it fails, the state at the failure (a caller that catches the error
  goes on from there). \<^verbatim>\<open>FunctionDecl\<close> leaves none when its walk does not end.
  \<^verbatim>\<open>Serialize\<close> is not among them: what a load puts into the tables is decided by the
  serializer.
\<close>

datatype table_op =
    OpLookupLexDefOrDynScope string int32 bool "addr option"
  | OpAddWithStruct Type "addr option"
  | OpScopeStart
  | OpScopeCleanup
  | OpUnregisterStruct addr
  | OpUnregisterFun addr
  | OpEndOfInclude
  | OpStructDecl string
  | OpStructUse string
  | OpFieldDecl string int32 addr
  | OpFunctionDecl string int32

definition state_of :: "(SymbolTable, 'a) result \<Rightarrow> SymbolTable" where
  "state_of r = (case r of Inl (e, s) \<Rightarrow> s | Inr (x, s) \<Rightarrow> s)"

fun apply_op :: "table_op \<Rightarrow> SymbolTable \<Rightarrow> SymbolTable option" where
  "apply_op (OpLookupLexDefOrDynScope nm ln dynscope sfp) s =
     Some (state_of (LookupLexDefOrDynScope nm ln dynscope sfp s))"
| "apply_op (OpAddWithStruct ty ident) s = Some (state_of (AddWithStruct ty ident s))"
| "apply_op OpScopeStart s = Some (ScopeStart s)"
| "apply_op OpScopeCleanup s = Some (state_of (ScopeCleanup s))"
| "apply_op (OpUnregisterStruct st) s = Some (state_of (UnregisterStruct st s))"
| "apply_op (OpUnregisterFun f) s = Some (state_of (UnregisterFun f s))"
| "apply_op OpEndOfInclude s = Some (state_of (EndOfInclude s))"
| "apply_op (OpStructDecl nm) s = Some (state_of (StructDecl nm s))"
| "apply_op (OpStructUse nm) s = Some (state_of (StructUse nm s))"
| "apply_op (OpFieldDecl nm i st) s = Some (state_of (FieldDecl nm i st s))"
| "apply_op (OpFunctionDecl nm na) s = map_option state_of (FunctionDecl nm na s)"

fun run_ops :: "table_op list \<Rightarrow> SymbolTable \<Rightarrow> SymbolTable option" where
  "run_ops [] s = Some s"
| "run_ops (op # ops) s = (case apply_op op s of None \<Rightarrow> None | Some s1 \<Rightarrow> run_ops ops s1)"

section \<open>Notions used in the statements\<close>

text \<open>The number of distinct offset values among registered (struct, offset) pairs.\<close>

definition distinct_offsets :: "FieldOffset list \<Rightarrow> nat" where
  "distinct_offsets fos = card (offset ` set fos)"

text \<open>A constant identifier that has not been assigned yet.\<close>

definition const_ident :: Ident where
  "const_ident = (Ident_new ''x'' 1 0 0)\<lparr>constant' := True\<rparr>"





text \<open>
  Sequences of \<^verbatim>\<open>ScopeStart\<close>, non-dynamic declarations and \<^verbatim>\<open>ScopeCleanup\<close>, run
  from left to right; the run stops at the first failure. A sequence is matched when
  every \<open>End\<close> closes the nearest open \<open>Start\<close> and none is left open.
\<close>

datatype scope_op = Start | Decl string int32 "addr option" | End

fun run_scope_ops :: "scope_op list \<Rightarrow> SymbolTable \<Rightarrow> failure \<times> SymbolTable + SymbolTable" where
  "run_scope_ops [] s = Inr s"
| "run_scope_ops (Start # ops) s = run_scope_ops ops (ScopeStart s)"
| "run_scope_ops (Decl nm ln sfp # ops) s =
     (case LookupLexDefOrDynScope nm ln False sfp s of
        Inl e \<Rightarrow> Inl e
      | Inr (ident, s1) \<Rightarrow> run_scope_ops ops s1)"
| "run_scope_ops (End # ops) s =
     (case ScopeCleanup s of
        Inl e \<Rightarrow> Inl e
      | Inr (u, s1) \<Rightarrow> run_scope_ops ops s1)"

inductive matched :: "scope_op list \<Rightarrow> bool" where
  matched_Nil: "matched []"
| matched_Decl: "matched w \<Longrightarrow> matched (Decl nm ln sfp # w)"
| matched_Scope: "matched u \<Longrightarrow> matched w \<Longrightarrow> matched (Start # u @ End # w)"

text \<open>
  For the proof about scopes: \<open>ext s m tb\<close> is \<open>s\<close> with more objects in the identifier
  memory and more entries in the identifier index table, and \<open>undone s s'\<close> says that
  popping the identifier stack of \<open>s'\<close> back to the size it has in \<open>s\<close> gives \<open>s\<close>
  again, up to such an extension.
\<close>

definition ext :: "SymbolTable \<Rightarrow> Ident list \<Rightarrow> addr list \<Rightarrow> SymbolTable" where
  "ext s m tb = s\<lparr>ident_mem := ident_mem s @ m, identtable := identtable s @ tb\<rparr>"

definition undone :: "SymbolTable \<Rightarrow> SymbolTable \<Rightarrow> bool" where
  "undone s s' =
     (\<exists>m tb. length (identstack s) \<le> length (identstack s') \<and>
        pop_idents (length (identstack s)) s' = Inr (ext s m tb))"

text \<open>
  An index table is in order when its \<open>i\<close>-th entry points to an object whose \<^verbatim>\<open>idx\<close>
  is \<open>i\<close> (as an \<^verbatim>\<open>int\<close>); \<open>idx_inv\<close> says so of the four tables, \<open>tables_grow\<close> that
  each table of the first state is an initial part of the same table in the second, and
  \<open>same_tables\<close> that the tables and the memories are the same.
\<close>

definition table_ok :: "addr list \<Rightarrow> 'a Name_scheme list \<Rightarrow> bool" where
  "table_ok tbl mem = (\<forall>i<length tbl. map_option idx (deref mem (tbl ! i)) = Some (of_nat i))"

definition idx_inv :: "SymbolTable \<Rightarrow> bool" where
  "idx_inv s =
     (table_ok (identtable s) (ident_mem s) \<and> table_ok (structtable s) (struct_mem s) \<and>
      table_ok (fieldtable s) (field_mem s) \<and> table_ok (functiontable s) (function_mem s))"

definition tables_grow :: "SymbolTable \<Rightarrow> SymbolTable \<Rightarrow> bool" where
  "tables_grow s s' =
     (prefix (identtable s) (identtable s') \<and> prefix (structtable s) (structtable s') \<and>
      prefix (fieldtable s) (fieldtable s') \<and> prefix (functiontable s) (functiontable s'))"

definition same_tables :: "SymbolTable \<Rightarrow> SymbolTable \<Rightarrow> bool" where
  "same_tables s s' =
     (identtable s' = identtable s \<and> ident_mem s' = ident_mem s \<and>
      structtable s' = structtable s \<and> struct_mem s' = struct_mem s \<and>
      fieldtable s' = fieldtable s \<and> field_mem s' = field_mem s \<and>
      functiontable s' = functiontable s \<and> function_mem s' = function_mem s)"

text \<open>The chain of functions linked by \<^verbatim>\<open>sibf\<close> from a pointer to the null pointer.\<close>

fun sib_chain :: "Function list \<Rightarrow> addr option \<Rightarrow> addr list \<Rightarrow> bool" where
  "sib_chain mem p [] = (p = None)"
| "sib_chain mem p (a # as) =
     (p = Some a \<and> (case deref mem a of None \<Rightarrow> False | Some obj \<Rightarrow> sib_chain mem (sibf obj) as))"

text \<open>
  States used as concrete inputs. \<open>st_x\<close>: one scope is open and \<^verbatim>\<open>x\<close> is declared in
  it. \<open>st_with\<close>: moreover a struct \<^verbatim>\<open>T\<close> with the field \<^verbatim>\<open>x\<close> is declared and a
  with-scope over \<^verbatim>\<open>T\<close> is open. \<open>st_with2\<close>: a second struct \<^verbatim>\<open>U\<close> with the fields
  \<^verbatim>\<open>y\<close> and \<^verbatim>\<open>x\<close>, and a second with-scope over it. \<open>st_f\<close>: the function \<^verbatim>\<open>f\<close>
  with one argument is declared. A struct's field list is filled by the parser, which
  pushes a \<^verbatim>\<open>UniqueField\<close> for each shared field that \<^verbatim>\<open>FieldDecl\<close> returns.
\<close>

definition st_x :: SymbolTable where
  "st_x = SymbolTable_new
     \<lparr>idents := [(''x'', 0)], identtable := [0], identstack := [0], scopelevels := [0],
      withstacklevels := [0], ident_mem := [Ident_new ''x'' 1 0 0]\<rparr>"

definition st_with :: SymbolTable where
  "st_with = st_x
     \<lparr>structs := [(''T'', Some 0)], structtable := [0], fields' := [(''x'', Some 0)],
      fieldtable := [0], withstack := [(\<lparr>t = V_STRUCT, idx = 0\<rparr>, Some 0)],
      struct_mem := [(Struct_new ''T'' 0)\<lparr>Struct.fields' := [UniqueField_new Type_default (Some 0)]\<rparr>],
      field_mem := [NewFieldUse (SharedField_new ''x'' 0) (FieldOffset_new 0 0)]\<rparr>"

definition st_with2 :: SymbolTable where
  "st_with2 = st_with
     \<lparr>structs := [(''T'', Some 0), (''U'', Some 1)], structtable := [0, 1],
      fields' := [(''x'', Some 0), (''y'', Some 1)], fieldtable := [0, 1],
      withstack := [(\<lparr>t = V_STRUCT, idx = 0\<rparr>, Some 0), (\<lparr>t = V_STRUCT, idx = 1\<rparr>, Some 0)],
      struct_mem :=
        [(Struct_new ''T'' 0)\<lparr>Struct.fields' := [UniqueField_new Type_default (Some 0)]\<rparr>,
         (Struct_new ''U'' 1)\<lparr>Struct.fields' := [UniqueField_new Type_default (Some 1),
                                                   UniqueField_new Type_default (Some 0)]\<rparr>],
      field_mem :=
        [NewFieldUse (NewFieldUse (SharedField_new ''x'' 0) (FieldOffset_new 0 0)) (FieldOffset_new 1 1),
         NewFieldUse (SharedField_new ''y'' 1) (FieldOffset_new 1 0)]\<rparr>"

text \<open>
  \<open>st_structs\<close>: the two structs of \<open>st_with2\<close> are declared and no with-scope is open.
  \<open>st_with_null1\<close> and \<open>st_with_null\<close>: from there, \<^verbatim>\<open>AddWithStruct\<close> has been called
  with a null Ident pointer, for \<^verbatim>\<open>T\<close> and then for \<^verbatim>\<open>U\<close>.
\<close>

definition st_structs :: SymbolTable where
  "st_structs = st_with2\<lparr>withstack := []\<rparr>"

definition st_with_null :: SymbolTable where
  "st_with_null = st_with2
     \<lparr>withstack := [(\<lparr>t = V_STRUCT, idx = 0\<rparr>, None), (\<lparr>t = V_STRUCT, idx = 1\<rparr>, None)]\<rparr>"

definition st_with_null1 :: SymbolTable where
  "st_with_null1 = st_with2\<lparr>withstack := [(\<lparr>t = V_STRUCT, idx = 0\<rparr>, None)]\<rparr>"

definition st_f :: SymbolTable where
  "st_f = SymbolTable_new
     \<lparr>functions' := [(''f'', 0)], functiontable := [0],
      function_mem := [Function_new ''f'' 0 1 0]\<rparr>"

text \<open>
  For privacy pruning: \<open>none_private\<close> says that no Ident in memory is flagged private,
  and \<open>st_private_shadow\<close> is a state with two nested scopes in which the inner \<^verbatim>\<open>x\<close>
  shadows the outer one and has been flagged private. The flag is a public member that
  no operation of the table writes; it is set by the table's user.
\<close>

definition st_private_shadow :: SymbolTable where
  "st_private_shadow = st_x
     \<lparr>idents := [(''x'', 1)], identtable := [0, 1], identstack := [0, 1],
      scopelevels := [0, 1], withstacklevels := [0, 0],
      ident_mem := [Ident_new ''x'' 1 0 0,
                    (Ident_new ''x'' 2 1 1)\<lparr>prev := Some 0, isprivate := True\<rparr>]\<rparr>"

definition none_private :: "SymbolTable \<Rightarrow> bool" where
  "none_private s = list_all (\<lambda>obj. \<not> isprivate obj) (ident_mem s)"

section \<open>Assignment to a constant\<close>

text \<open>
  Claim C3, as amended. \<^verbatim>\<open>Ident::Assign\<close> on an identifier whose \<^verbatim>\<open>constant\<close> flag is
  set always signals the compile error "variable <name> is constant"; the flag
  \<^verbatim>\<open>single_assignment\<close> has been cleared before the error is raised, and no other
  member is touched.
\<close>

theorem Assign_constant:
  "constant' ident \<Longrightarrow>
     Assign ident = Inl (LexError (''variable '' @ name ident @ '' is constant''),
                         ident\<lparr>single_assignment := False\<rparr>)"
  by (simp add: Assign_def Let_def)

theorem Assign_constant_witness:
  "constant' const_ident \<and>
   Assign const_ident
     = Inl (LexError ''variable x is constant'', const_ident\<lparr>single_assignment := False\<rparr>)"
  using Assign_constant [of const_ident] by (simp add: const_ident_def Ident_new_def)

text \<open>
  Claim C3 as stated fails: the constant identifier \<open>const_ident\<close> has
  \<^verbatim>\<open>single_assignment\<close> set, and after the failed call it is cleared.
\<close>

theorem Assign_constant_counterexample:
  "constant' const_ident \<and> single_assignment const_ident \<and>
   (case Assign const_ident of
      Inl (e, ident1) \<Rightarrow> \<not> single_assignment ident1
    | Inr r \<Rightarrow> False)"
  by (simp add: Assign_def Let_def const_ident_def Ident_new_def)

section \<open>The count of unique field offsets\<close>

lemma NewFieldUse_offsets: "offsets (NewFieldUse fld nfo) = offsets fld @ [nfo]"
  by (simp add: NewFieldUse_def Let_def)

lemma foldl_NewFieldUse_offsets: "offsets (foldl NewFieldUse fld fos) = offsets fld @ fos"
  by (induction fos arbitrary: fld) (simp_all add: NewFieldUse_offsets)

lemma NewFieldUse_numunique:
  assumes "numunique fld = of_nat (distinct_offsets (offsets fld))"
  shows "numunique (NewFieldUse fld nfo) = of_nat (distinct_offsets (offsets (NewFieldUse fld nfo)))"
proof (cases "offset nfo \<in> offset ` set (offsets fld)")
  case True
  then have "list_ex (\<lambda>fo. offset fo = offset nfo) (offsets fld)"
    by (auto simp: list_ex_iff)
  with True assms show ?thesis
    by (simp add: NewFieldUse_def Let_def distinct_offsets_def insert_absorb)
next
  case False
  then have "\<not> list_ex (\<lambda>fo. offset fo = offset nfo) (offsets fld)"
    unfolding list_ex_iff by (metis imageI)
  with False assms show ?thesis
    by (simp add: NewFieldUse_def Let_def distinct_offsets_def)
qed

lemma foldl_NewFieldUse_numunique:
  "numunique fld = of_nat (distinct_offsets (offsets fld)) \<Longrightarrow>
   numunique (foldl NewFieldUse fld fos)
     = of_nat (distinct_offsets (offsets (foldl NewFieldUse fld fos)))"
  by (induction fos arbitrary: fld) (simp_all add: NewFieldUse_numunique)

text \<open>An offset is a \<^verbatim>\<open>short\<close>, so there are at most \<open>2\<^sup>1\<^sup>6\<close> distinct ones and the
  \<^verbatim>\<open>int\<close> counter never overflows.\<close>

lemma distinct_offsets_le: "distinct_offsets fos \<le> 65536"
proof -
  have "card (offset ` set fos) \<le> card (UNIV :: 16 word set)"
    by (rule card_mono) auto
  then show ?thesis by (simp add: distinct_offsets_def card_word)
qed

lemma sint_of_nat_int: "n < 2 ^ 31 \<Longrightarrow> sint (of_nat n :: 32 word) = int n"
proof -
  assume n: "n < 2 ^ 31"
  have "sint (word_of_int (int n) :: 32 word) = signed_take_bit (LENGTH(32) - 1) (int n)"
    by (rule sint_sbintrunc')
  also have "\<dots> = int n"
    using n by (intro signed_take_bit_int_eq_self) simp_all
  finally show ?thesis by simp
qed

lemma sint_of_nat_small: "n \<le> 65536 \<Longrightarrow> sint (of_nat n :: 32 word) = int n"
  by (rule sint_of_nat_int) simp

text \<open>
  Claim C4. Starting from a freshly constructed \<^verbatim>\<open>SharedField\<close>, after any sequence of
  \<^verbatim>\<open>NewFieldUse\<close> calls \<^verbatim>\<open>numunique\<close> is the number of distinct offset values among
  the registered pairs; hence two sequences that register the same pairs in a different
  order end with the same \<^verbatim>\<open>numunique\<close>.
\<close>

theorem numunique_counts_distinct_offsets:
  "sint (numunique (foldl NewFieldUse (SharedField_new n i) fos)) = int (distinct_offsets fos) \<and>
   (mset fos' = mset fos \<longrightarrow>
      numunique (foldl NewFieldUse (SharedField_new n i) fos')
        = numunique (foldl NewFieldUse (SharedField_new n i) fos))"
proof -
  have fresh: "numunique (SharedField_new n i)
                 = of_nat (distinct_offsets (offsets (SharedField_new n i)))"
    by (simp add: SharedField_new_def distinct_offsets_def)
  have eq: "numunique (foldl NewFieldUse (SharedField_new n i) xs) = of_nat (distinct_offsets xs)"
    for xs
    using foldl_NewFieldUse_numunique [OF fresh, of xs]
    by (simp add: foldl_NewFieldUse_offsets SharedField_new_def)
  have "sint (numunique (foldl NewFieldUse (SharedField_new n i) fos)) = int (distinct_offsets fos)"
    by (simp only: eq sint_of_nat_small [OF distinct_offsets_le])
  moreover have "distinct_offsets fos' = distinct_offsets fos" if "mset fos' = mset fos"
    using that by (metis distinct_offsets_def mset_eq_setD)
  ultimately show ?thesis by (simp add: eq)
qed

text \<open>The offsets 5, 5, 7, 5, 7 and a permutation of them: two unique offsets.\<close>

theorem numunique_counts_distinct_offsets_witness:
  "sint (numunique (foldl NewFieldUse (SharedField_new ''x'' 0)
           (map (FieldOffset_new 0) [5, 5, 7, 5, 7]))) = 2 \<and>
   mset (map (FieldOffset_new 0) [7, 5, 5, 7, 5]) = mset (map (FieldOffset_new 0) [5, 5, 7, 5, 7]) \<and>
   numunique (foldl NewFieldUse (SharedField_new ''x'' 0) (map (FieldOffset_new 0) [7, 5, 5, 7, 5]))
     = numunique (foldl NewFieldUse (SharedField_new ''x'' 0) (map (FieldOffset_new 0) [5, 5, 7, 5, 7]))"
proof -
  have m: "mset (map (FieldOffset_new 0) [7, 5, 5, 7, 5])
             = mset (map (FieldOffset_new 0) [5, 5, 7, 5, 7])"
    by (simp add: add_mset_commute)
  have d: "distinct_offsets (map (FieldOffset_new 0) [5, 5, 7, 5, 7]) = 2"
    by (simp add: distinct_offsets_def FieldOffset_new_def card_insert_if)
  show ?thesis
    using numunique_counts_distinct_offsets
            [of "''x''" 0 "map (FieldOffset_new 0) [5, 5, 7, 5, 7]"
                "map (FieldOffset_new 0) [7, 5, 5, 7, 5]"]
          m d
    by simp
qed

section \<open>The version guard of deserialization\<close>

text \<open>
  Claim C7. When \<^verbatim>\<open>Serialize\<close> runs with a read buffer, the version stamp is the first
  value read; if it differs from the build's stamp the call throws at once: the
  serializer has advanced over the stamp only, and the symbol table (its tables, the
  objects, the file names), the bytecode and the line numbers are those before the call.
\<close>

theorem version_mismatch_aborts_first:
  "ser_string ser curvers z = (vers, z1) \<Longrightarrow> rbuf ser z1 \<Longrightarrow> vers \<noteq> curvers \<Longrightarrow>
     Serialize ser curvers z code linenumbers s
       = Inl (Thrown ''cannot load bytecode from a different version of the compiler'',
              (s, code, linenumbers, z1))"
  by (simp add: Serialize_def)

theorem version_mismatch_aborts_first_witness:
  "ser_string reader ''Oct 30 2026'' [''Jan  1 2014'', ''rest''] = (''Jan  1 2014'', [''rest'']) \<and>
   rbuf reader [''rest''] \<and> ''Jan  1 2014'' \<noteq> ''Oct 30 2026'' \<and>
   Serialize reader ''Oct 30 2026'' [''Jan  1 2014'', ''rest''] [1, 2] [] SymbolTable_new
     = Inl (Thrown ''cannot load bytecode from a different version of the compiler'',
            (SymbolTable_new, [1, 2], [], [''rest'']))"
proof -
  have a: "ser_string reader ''Oct 30 2026'' [''Jan  1 2014'', ''rest'']
             = (''Jan  1 2014'', [''rest''])"
    by (simp add: reader_def)
  have b: "rbuf reader [''rest'']" by (simp add: reader_def)
  have c: "''Jan  1 2014'' \<noteq> ''Oct 30 2026''" by simp
  show ?thesis
    using version_mismatch_aborts_first [OF a b c, of "[1, 2]" "[]" SymbolTable_new] a b c
    by simp
qed

section \<open>The example states are reached by the operations\<close>

lemma st_x_reached:
  "LookupLexDefOrDynScope ''x'' 1 False None (ScopeStart SymbolTable_new) = Inr (0, st_x)"
  by (simp add: LookupLexDefOrDynScope_def LookupWithStruct_def FieldUse_def ScopeStart_def
        SymbolTable_new_def st_x_def Let_def Ident_new_def)

lemma st_with_reached:
  "(case StructDecl ''T'' st_x of
      Inl e \<Rightarrow> None
    | Inr (st, s2) \<Rightarrow>
        (case FieldDecl ''x'' 0 st s2 of
           Inl e \<Rightarrow> None
         | Inr (fld, s3) \<Rightarrow>
             (case AddWithStruct \<lparr>t = V_STRUCT, idx = 0\<rparr> (Some 0)
                     (s3\<lparr>struct_mem := (struct_mem s3)
                           [st := (struct_mem s3 ! st)\<lparr>Struct.fields' := [UniqueField_new Type_default (Some fld)]\<rparr>]\<rparr>) of
                Inl e \<Rightarrow> None
              | Inr (u, s4) \<Rightarrow> Some s4))) = Some st_with"
  by (simp add: StructDecl_def FieldDecl_def AddWithStruct_def map_index_def deref_def
        st_x_def st_with_def SymbolTable_new_def Let_def Struct_new_def)

lemma st_with2_reached:
  "(case StructDecl ''U'' st_with of
      Inl e \<Rightarrow> None
    | Inr (st, s2) \<Rightarrow>
        (case FieldDecl ''y'' 0 st s2 of
           Inl e \<Rightarrow> None
         | Inr (fy, s3) \<Rightarrow>
             (case FieldDecl ''x'' 1 st s3 of
                Inl e \<Rightarrow> None
              | Inr (fx, s4) \<Rightarrow>
                  (case AddWithStruct \<lparr>t = V_STRUCT, idx = 1\<rparr> (Some 0)
                          (s4\<lparr>struct_mem := (struct_mem s4)
                                [st := (struct_mem s4 ! st)
                                         \<lparr>Struct.fields' := [UniqueField_new Type_default (Some fy),
                                                             UniqueField_new Type_default (Some fx)]\<rparr>]\<rparr>) of
                     Inl e \<Rightarrow> None
                   | Inr (u, s5) \<Rightarrow> Some s5)))) = Some st_with2"
  by (simp add: StructDecl_def FieldDecl_def AddWithStruct_def map_index_def deref_def
        st_x_def st_with_def st_with2_def SymbolTable_new_def Let_def Struct_new_def)

lemma st_private_shadow_reached:
  "(case LookupLexDefOrDynScope ''x'' 2 False None (ScopeStart st_x) of
      Inl e \<Rightarrow> None
    | Inr (ident, s1) \<Rightarrow>
        Some (s1\<lparr>ident_mem := (ident_mem s1)[ident := (ident_mem s1 ! ident)\<lparr>isprivate := True\<rparr>]\<rparr>))
     = Some st_private_shadow"
  by (simp add: LookupLexDefOrDynScope_def LookupWithStruct_def FieldUse_def ScopeStart_def
        deref_def st_x_def st_private_shadow_def SymbolTable_new_def Let_def Ident_new_def)

lemma st_structs_reached:
  "(case StructDecl ''T'' st_x of
      Inl e \<Rightarrow> None
    | Inr (st, s2) \<Rightarrow>
        (case FieldDecl ''x'' 0 st s2 of
           Inl e \<Rightarrow> None
         | Inr (fx, s3) \<Rightarrow>
             (case StructDecl ''U''
                     (s3\<lparr>struct_mem := (struct_mem s3)
                           [st := (struct_mem s3 ! st)
                                    \<lparr>Struct.fields' := [UniqueField_new Type_default (Some fx)]\<rparr>]\<rparr>) of
                Inl e \<Rightarrow> None
              | Inr (su, s4) \<Rightarrow>
                  (case FieldDecl ''y'' 0 su s4 of
                     Inl e \<Rightarrow> None
                   | Inr (fy, s5) \<Rightarrow>
                       (case FieldDecl ''x'' 1 su s5 of
                          Inl e \<Rightarrow> None
                        | Inr (fx1, s6) \<Rightarrow>
                            Some (s6\<lparr>struct_mem := (struct_mem s6)
                                    [su := (struct_mem s6 ! su)
                                             \<lparr>Struct.fields' := [UniqueField_new Type_default (Some fy),
                                                                 UniqueField_new Type_default (Some fx1)]\<rparr>]\<rparr>)))))) = Some st_structs"
  by (simp add: StructDecl_def FieldDecl_def map_index_def deref_def st_structs_def
        st_x_def st_with_def st_with2_def SymbolTable_new_def Let_def Struct_new_def)

lemma st_with_null_reached:
  "(case AddWithStruct \<lparr>t = V_STRUCT, idx = 0\<rparr> None st_structs of
      Inl e \<Rightarrow> None
    | Inr (u, s1) \<Rightarrow>
        (case AddWithStruct \<lparr>t = V_STRUCT, idx = 1\<rparr> None s1 of
           Inl e \<Rightarrow> None
         | Inr (v, s2) \<Rightarrow> Some (s1, s2))) = Some (st_with_null1, st_with_null)"
  by (simp add: AddWithStruct_def st_structs_def st_with_null_def st_with_null1_def st_with2_def st_with_def
        st_x_def SymbolTable_new_def)

lemma st_f_reached: "FunctionDecl ''f'' 1 SymbolTable_new = Some (Inr (0, st_f))"
  by (simp add: FunctionDecl_def Function_link_def SymbolTable_new_def st_f_def Let_def)

section \<open>Redefinition and shadowing\<close>

text \<open>
  Claim C5, as amended. Let the name have a live binding, let a scope be open, and let
  \<^verbatim>\<open>LookupWithStruct\<close> find no with-scope field of the name. A non-dynamic declaration
  signals "identifier redefinition" when the live binding was created at the current
  scope (the maps, the stack and the index table are untouched; the Ident just allocated
  is left unreferenced); otherwise it succeeds, the fresh Ident is the live binding and
  its \<^verbatim>\<open>prev\<close> is the previous live binding.
\<close>

theorem redefinition_or_shadow:
  assumes "map_of (idents s) nm = Some old"
    and "deref (ident_mem s) old = Some oldobj"
    and "scopelevels s \<noteq> []"
    and "LookupWithStruct nm None s = Inr (None, w)"
  shows "let ident = length (ident_mem s);
             obj = (Ident_new nm ln (of_nat (length (identtable s))) (last (scopelevels s)))\<lparr>sf := sfp\<rparr>
         in (scope oldobj = last (scopelevels s) \<longrightarrow>
               LookupLexDefOrDynScope nm ln False sfp s
                 = Inl (LexError (''identifier redefinition: '' @ nm),
                        s\<lparr>ident_mem := ident_mem s @ [obj]\<rparr>)) \<and>
            (scope oldobj \<noteq> last (scopelevels s) \<longrightarrow>
               (let s' = s\<lparr>ident_mem := ident_mem s @ [obj\<lparr>prev := Some old\<rparr>],
                          idents := AList.update nm ident (idents s),
                          identstack := identstack s @ [ident],
                          identtable := identtable s @ [ident]\<rparr>
                in LookupLexDefOrDynScope nm ln False sfp s = Inr (ident, s') \<and>
                   LookupLexMaybe nm s' = Some ident \<and>
                   map_option prev (deref (ident_mem s') ident) = Some (Some old)))"
proof -
  have old: "old < length (ident_mem s)" "ident_mem s ! old = oldobj"
    using assms(2) by (auto simp: deref_def split: if_splits)
  show ?thesis
    using assms(1,3,4) old
    by (auto simp: LookupLexDefOrDynScope_def Let_def deref_def nth_append Ident_new_def
          LookupLexMaybe_def update_conv')
qed

lemma LookupWithStruct_st_x: "LookupWithStruct ''x'' None st_x = Inr (None, None)"
  by (simp add: LookupWithStruct_def FieldUse_def st_x_def SymbolTable_new_def)

lemma LookupWithStruct_ScopeStart_st_x:
  "LookupWithStruct ''x'' None (ScopeStart st_x) = Inr (None, None)"
  by (simp add: LookupWithStruct_def FieldUse_def st_x_def SymbolTable_new_def ScopeStart_def)

theorem redefinition_or_shadow_witness:
  "LookupLexDefOrDynScope ''x'' 2 False None st_x
     = Inl (LexError ''identifier redefinition: x'',
            st_x\<lparr>ident_mem := [Ident_new ''x'' 1 0 0, Ident_new ''x'' 2 1 0]\<rparr>) \<and>
   LookupLexDefOrDynScope ''x'' 2 False None (ScopeStart st_x)
     = Inr (1, st_x\<lparr>ident_mem := [Ident_new ''x'' 1 0 0, (Ident_new ''x'' 2 1 1)\<lparr>prev := Some 0\<rparr>],
                     idents := [(''x'', 1)], identstack := [0, 1], identtable := [0, 1],
                     scopelevels := [0, 1], withstacklevels := [0, 0]\<rparr>)"
proof -
  have a: "map_of (idents st_x) ''x'' = Some 0"
    and b: "deref (ident_mem st_x) 0 = Some (Ident_new ''x'' 1 0 0)"
    and c: "scopelevels st_x \<noteq> []"
    by (simp_all add: st_x_def SymbolTable_new_def deref_def)
  have a': "map_of (idents (ScopeStart st_x)) ''x'' = Some 0"
    and b': "deref (ident_mem (ScopeStart st_x)) 0 = Some (Ident_new ''x'' 1 0 0)"
    and c': "scopelevels (ScopeStart st_x) \<noteq> []"
    by (simp_all add: st_x_def SymbolTable_new_def deref_def ScopeStart_def)
  show ?thesis
    using redefinition_or_shadow [OF a b c LookupWithStruct_st_x, where ln = 2 and sfp = None]
          redefinition_or_shadow [OF a' b' c' LookupWithStruct_ScopeStart_st_x, where ln = 2 and sfp = None]
    by (simp add: Let_def st_x_def SymbolTable_new_def ScopeStart_def Ident_new_def)
qed

text \<open>
  Claim C5 as stated fails in \<open>st_with\<close>: \<^verbatim>\<open>x\<close> is live and was created at the current
  scope, yet the declaration signals the with-scope collision, not a redefinition.
\<close>

theorem redefinition_or_shadow_counterexample:
  "map_of (idents st_with) ''x'' = Some 0 \<and>
   map_option scope (deref (ident_mem st_with) 0) = Some (last (scopelevels st_with)) \<and>
   LookupLexDefOrDynScope ''x'' 2 False None st_with
     = Inl (LexError ''cannot define variable with same name as field in this scope: x'', st_with)"
  by (simp add: LookupLexDefOrDynScope_def LookupWithStruct_def FieldUse_def vec_at_def deref_def
        Has_def UniqueField_new_def st_with_def st_x_def SymbolTable_new_def Struct_new_def
        Ident_new_def)

section \<open>Dynamic-scope declaration of a live name\<close>

text \<open>
  Claim C10. A declaration with \<^verbatim>\<open>dynscope\<close> set, of a name that has a live binding,
  returns that binding and the state is the one before the call: nothing is allocated,
  no table, stack or map changes, and no error is raised, the with-scope collision
  included (the witness runs it in \<open>st_with\<close>, where a normal declaration collides).
\<close>

theorem dynscope_existing_unchanged:
  "map_of (idents s) nm = Some ident \<Longrightarrow>
     LookupLexDefOrDynScope nm ln True sfp s = Inr (ident, s)"
  by (simp add: LookupLexDefOrDynScope_def)

theorem dynscope_existing_unchanged_witness:
  "map_of (idents st_with) ''x'' = Some 0 \<and>
   LookupLexDefOrDynScope ''x'' 2 True None st_with = Inr (0, st_with)"
proof -
  have a: "map_of (idents st_with) ''x'' = Some 0"
    by (simp add: st_with_def st_x_def SymbolTable_new_def)
  show ?thesis
    using dynscope_existing_unchanged [OF a, where ln = 2 and sfp = None] a by simp
qed

section \<open>Implicit field access through the with-stack\<close>








section \<open>Declaring a function of a new arity\<close>

lemma find_nargs_absent:
  "sib_chain mem p ch \<Longrightarrow> list_all (\<lambda>a. map_option nargs (deref mem a) \<noteq> Some na) ch \<Longrightarrow>
     find_nargs mem p na = Some (Inr None)"
proof (induction ch arbitrary: p)
  case Nil
  then show ?case by (simp add: find_nargs.simps)
next
  case (Cons a as)
  then obtain obj where p: "p = Some a" and obj: "deref mem a = Some obj"
    and ch: "sib_chain mem (sibf obj) as"
    by (auto split: option.splits)
  from Cons.prems(2) obj have na: "nargs obj \<noteq> na" and rest: "list_all (\<lambda>a. map_option nargs (deref mem a) \<noteq> Some na) as"
    by simp_all
  show ?case
    using Cons.IH [OF ch rest] na
    by (subst find_nargs.simps) (simp add: p obj)
qed

text \<open>
  Claim C2, as amended. When \<^verbatim>\<open>FunctionDecl\<close> is called with a name that has
  registered functions, at the scope level of the chain's head, and no function of the
  chain has the arity, the new Function is appended to the function table and linked in
  directly behind the head: the head's \<^verbatim>\<open>sibf\<close> is the new Function, whose \<^verbatim>\<open>sibf\<close>
  is the head's former one, and \<^verbatim>\<open>FindFunction\<close> still returns the old head.
\<close>

theorem FunctionDecl_new_arity:
  assumes "map_of (functions' s) nm = Some head"
    and "deref (function_mem s) head = Some h"
    and "scopelevel h = of_nat (length (scopelevels s))"
    and "sib_chain (function_mem s) (Some head) ch"
    and "list_all (\<lambda>a. map_option nargs (deref (function_mem s) a) \<noteq> Some na) ch"
  shows "let f = length (function_mem s);
             obj = Function_new nm (of_nat (length (functiontable s))) na (of_nat (length (scopelevels s)));
             s' = s\<lparr>function_mem := (function_mem s @ [obj\<lparr>sibf := sibf h\<rparr>])[head := h\<lparr>sibf := Some f\<rparr>],
                    functiontable := functiontable s @ [f]\<rparr>
         in FunctionDecl nm na s = Some (Inr (f, s')) \<and>
            FindFunction nm s' = Some head \<and>
            map_option sibf (deref (function_mem s') head) = Some (Some f) \<and>
            map_option sibf (deref (function_mem s') f) = Some (sibf h)"
proof -
  have h: "head < length (function_mem s)" "function_mem s ! head = h"
    using assms(2) by (auto simp: deref_def split: if_splits)
  have fn: "find_nargs (function_mem s) (Some head) na = Some (Inr None)"
    by (rule find_nargs_absent [OF assms(4,5)])
  show ?thesis
    using assms(1,3) h fn
    by (auto simp: FunctionDecl_def Function_link_def Let_def deref_def nth_append
          FindFunction_def Function_new_def)
qed

theorem FunctionDecl_new_arity_witness:
  "FunctionDecl ''f'' 2 st_f
     = Some (Inr (1, st_f\<lparr>function_mem := [(Function_new ''f'' 0 1 0)\<lparr>sibf := Some 1\<rparr>,
                                             Function_new ''f'' 1 2 0],
                           functiontable := [0, 1]\<rparr>)) \<and>
   FindFunction ''f'' (st_f\<lparr>function_mem := [(Function_new ''f'' 0 1 0)\<lparr>sibf := Some 1\<rparr>,
                                             Function_new ''f'' 1 2 0],
                           functiontable := [0, 1]\<rparr>) = Some 0"
proof -
  have a: "map_of (functions' st_f) ''f'' = Some 0"
    and b: "deref (function_mem st_f) 0 = Some (Function_new ''f'' 0 1 0)"
    and c: "scopelevel (Function_new ''f'' 0 1 0) = of_nat (length (scopelevels st_f))"
    and d: "sib_chain (function_mem st_f) (Some 0) [0]"
    and e: "list_all (\<lambda>a. map_option nargs (deref (function_mem st_f) a) \<noteq> Some 2) [0]"
    by (simp_all add: st_f_def SymbolTable_new_def deref_def Function_new_def)
  show ?thesis
    using FunctionDecl_new_arity [OF a b c d e]
    by (simp add: Let_def st_f_def SymbolTable_new_def Function_new_def)
qed

text \<open>
  Claim C2 as stated fails in \<open>st_f\<close>: after declaring \<^verbatim>\<open>f\<close> with two arguments,
  \<^verbatim>\<open>FindFunction\<close> returns the first Function, not the new one.
\<close>

theorem FunctionDecl_new_head_counterexample:
  "(case FunctionDecl ''f'' 2 st_f of
      Some (Inr (f, s')) \<Rightarrow> f = 1 \<and> FindFunction ''f'' s' = Some 0 \<and> FindFunction ''f'' s' \<noteq> Some f
    | _ \<Rightarrow> False)"
  by (simp add: FunctionDecl_def Function_link_def find_nargs.simps FindFunction_def deref_def
        st_f_def SymbolTable_new_def Function_new_def Let_def)

section \<open>Scopes restore the bindings they shadow\<close>

lemma pop_idents_stop: "\<not> lvl < length (identstack s) \<Longrightarrow> pop_idents lvl s = Inr s"
  by (simp add: pop_idents.simps [of lvl s])

lemma pop_idents_go:
  "lvl < length (identstack s) \<Longrightarrow> deref (ident_mem s) (last (identstack s)) = Some obj \<Longrightarrow>
     pop_idents lvl s = pop_idents lvl (pop_ident s obj)"
  by (simp add: pop_idents.simps [of lvl s])

lemma run_scope_ops_append:
  "run_scope_ops (xs @ ys) s =
     (case run_scope_ops xs s of Inl e \<Rightarrow> Inl e | Inr s1 \<Rightarrow> run_scope_ops ys s1)"
  by (induction xs s rule: run_scope_ops.induct) (auto split: sum.splits)

lemma ext_ext: "ext (ext s m tb) m' tb' = ext s (m @ m') (tb @ tb')"
  by (simp add: ext_def)

lemma pop_ident_ext: "pop_ident (ext s m tb) obj = ext (pop_ident s obj) m tb"
  by (simp add: pop_ident_def ext_def split: option.splits)

lemma pop_idents_ext:
  "pop_idents lvl s = Inr r \<Longrightarrow> pop_idents lvl (ext s m tb) = Inr (ext r m tb)"
proof (induction lvl s arbitrary: r rule: pop_idents.induct)
  case (1 lvl s)
  show ?case
  proof (cases "lvl < length (identstack s)")
    case False
    then have "\<not> lvl < length (identstack (ext s m tb))" by (simp add: ext_def)
    with False "1.prems" show ?thesis
      by (simp add: pop_idents_stop)
  next
    case True
    with "1.prems" obtain obj where obj: "deref (ident_mem s) (last (identstack s)) = Some obj"
      and r: "pop_idents lvl (pop_ident s obj) = Inr r"
      by (auto simp: pop_idents.simps [of lvl s] split: option.splits)
    have d: "deref (ident_mem (ext s m tb)) (last (identstack (ext s m tb))) = Some obj"
      using obj by (auto simp: ext_def deref_def nth_append split: if_splits)
    have l: "lvl < length (identstack (ext s m tb))"
      using True by (simp add: ext_def)
    show ?thesis
      using "1.IH" [OF True obj r] pop_idents_go [OF l d]
      by (simp add: pop_ident_ext)
  qed
qed

lemma pop_idents_split:
  "l1 \<le> l2 \<Longrightarrow>
   pop_idents l1 s = (case pop_idents l2 s of Inl e \<Rightarrow> Inl e | Inr r \<Rightarrow> pop_idents l1 r)"
proof (induction l2 s rule: pop_idents.induct)
  case (1 l2 s)
  show ?case
  proof (cases "l2 < length (identstack s)")
    case False
    then show ?thesis by (simp add: pop_idents.simps [of l2 s])
  next
    case True
    with "1.prems" have l1: "l1 < length (identstack s)" by simp
    show ?thesis
    proof (cases "deref (ident_mem s) (last (identstack s))")
      case None
      with True l1 show ?thesis
        by (simp add: pop_idents.simps [of l2 s] pop_idents.simps [of l1 s])
    next
      case (Some obj)
      with True l1 "1.IH" [OF True Some "1.prems"] show ?thesis
        by (simp add: pop_idents.simps [of l2 s] pop_idents.simps [of l1 s])
    qed
  qed
qed

lemma pop_idents_frame:
  "pop_idents lvl s = Inr r \<Longrightarrow> r = s\<lparr>idents := idents r, identstack := identstack r\<rparr>"
proof (induction lvl s arbitrary: r rule: pop_idents.induct)
  case (1 lvl s)
  show ?case
  proof (cases "lvl < length (identstack s)")
    case False
    with "1.prems" show ?thesis by (simp add: pop_idents.simps [of lvl s])
  next
    case True
    with "1.prems" obtain obj where obj: "deref (ident_mem s) (last (identstack s)) = Some obj"
      and r: "pop_idents lvl (pop_ident s obj) = Inr r"
      by (auto simp: pop_idents.simps [of lvl s] split: option.splits)
    have "r = (pop_ident s obj)\<lparr>idents := idents r, identstack := identstack r\<rparr>"
      by (rule "1.IH" [OF True obj r])
    then show ?thesis
      by (simp add: pop_ident_def split: option.splits)
  qed
qed

lemma undone_refl: "undone s s"
proof -
  have "pop_idents (length (identstack s)) s = Inr (ext s [] [])"
    by (simp add: pop_idents.simps [of _ s] ext_def)
  then show ?thesis unfolding undone_def by blast
qed

lemma undone_ext: "undone s (ext s m tb)"
proof -
  have "pop_idents (length (identstack s)) (ext s m tb) = Inr (ext s m tb)"
    by (rule pop_idents_stop) (simp add: ext_def)
  then show ?thesis unfolding undone_def by (auto simp: ext_def)
qed

lemma undone_trans:
  assumes "undone s1 s2" and "undone s2 s3"
  shows "undone s1 s3"
proof -
  from assms(1) obtain m tb where l12: "length (identstack s1) \<le> length (identstack s2)"
    and p12: "pop_idents (length (identstack s1)) s2 = Inr (ext s1 m tb)"
    unfolding undone_def by blast
  from assms(2) obtain m' tb' where l23: "length (identstack s2) \<le> length (identstack s3)"
    and p23: "pop_idents (length (identstack s2)) s3 = Inr (ext s2 m' tb')"
    unfolding undone_def by blast
  have "pop_idents (length (identstack s1)) s3
          = pop_idents (length (identstack s1)) (ext s2 m' tb')"
    using pop_idents_split [OF l12, of s3] p23 by simp
  also have "\<dots> = Inr (ext (ext s1 m tb) m' tb')"
    by (rule pop_idents_ext [OF p12])
  finally have "pop_idents (length (identstack s1)) s3 = Inr (ext s1 (m @ m') (tb @ tb'))"
    by (simp add: ext_ext)
  with l12 l23 show ?thesis unfolding undone_def by (meson le_trans)
qed

lemma undone_Decl:
  assumes "LookupLexDefOrDynScope nm ln False sfp s = Inr (a, s1)"
  shows "undone s s1"
proof (cases "map_of (idents s) nm")
  case None
  then have notin: "nm \<notin> fst ` set (idents s)"
    by (simp add: map_of_eq_None_iff)
  define obj where "obj = (Ident_new nm ln (of_nat (length (identtable s))) (last (scopelevels s)))\<lparr>sf := sfp\<rparr>"
  from assms None have s1: "s1 = s\<lparr>ident_mem := ident_mem s @ [obj],
        idents := AList.update nm (length (ident_mem s)) (idents s),
        identstack := identstack s @ [length (ident_mem s)],
        identtable := identtable s @ [length (ident_mem s)]\<rparr>"
    by (auto simp: LookupLexDefOrDynScope_def Let_def obj_def split: sum.splits option.splits prod.splits if_splits)
  have nm: "name obj = nm" and pv: "prev obj = None"
    by (simp_all add: obj_def Ident_new_def)
  have p1: "pop_ident s1 obj = ext s [obj] [length (ident_mem s)]"
    using notin by (simp add: pop_ident_def s1 nm pv update_conv' delete_update_same delete_id ext_def)
  have "pop_idents (length (identstack s)) s1 = pop_idents (length (identstack s)) (pop_ident s1 obj)"
    by (rule pop_idents_go) (simp_all add: s1 deref_def)
  also have "\<dots> = Inr (ext s [obj] [length (ident_mem s)])"
    unfolding p1 by (rule pop_idents_stop) (simp add: ext_def)
  finally have "pop_idents (length (identstack s)) s1 = Inr (ext s [obj] [length (ident_mem s)])" .
  then show ?thesis unfolding undone_def by (auto simp: s1)
next
  case (Some old)
  define obj where "obj = (Ident_new nm ln (of_nat (length (identtable s))) (last (scopelevels s)))\<lparr>sf := sfp, prev := Some old\<rparr>"
  from assms Some have s1: "s1 = s\<lparr>ident_mem := ident_mem s @ [obj],
        idents := AList.update nm (length (ident_mem s)) (idents s),
        identstack := identstack s @ [length (ident_mem s)],
        identtable := identtable s @ [length (ident_mem s)]\<rparr>"
    by (auto simp: LookupLexDefOrDynScope_def Let_def obj_def split: sum.splits option.splits prod.splits if_splits)
  have nm: "name obj = nm" and pv: "prev obj = Some old"
    by (simp_all add: obj_def Ident_new_def)
  have p1: "pop_ident s1 obj = ext s [obj] [length (ident_mem s)]"
    using Some by (simp add: pop_ident_def s1 nm pv update_conv' update_last update_triv ext_def)
  have "pop_idents (length (identstack s)) s1 = pop_idents (length (identstack s)) (pop_ident s1 obj)"
    by (rule pop_idents_go) (simp_all add: s1 deref_def)
  also have "\<dots> = Inr (ext s [obj] [length (ident_mem s)])"
    unfolding p1 by (rule pop_idents_stop) (simp add: ext_def)
  finally have "pop_idents (length (identstack s)) s1 = Inr (ext s [obj] [length (ident_mem s)])" .
  then show ?thesis unfolding undone_def by (auto simp: s1)
qed

lemma ScopeCleanup_undone:
  assumes "undone (ScopeStart s) s1" and "ScopeCleanup s1 = Inr (u, s2)"
  shows "\<exists>m tb. s2 = ext s m tb"
proof -
  from assms(1) obtain m tb where
    p: "pop_idents (length (identstack s)) s1 = Inr (ext (ScopeStart s) m tb)"
    unfolding undone_def by (auto simp: ScopeStart_def)
  let ?r = "ext (ScopeStart s) m tb"
  have e: "?r = s1\<lparr>idents := idents ?r, identstack := identstack ?r\<rparr>"
    by (rule pop_idents_frame [OF p])
  have sl: "scopelevels s1 = scopelevels s @ [length (identstack s)]"
    using arg_cong [OF e, of scopelevels] by (simp add: ext_def ScopeStart_def)
  have "s2 = ext s m tb"
    using assms(2) p sl
    by (simp add: ScopeCleanup_def Let_def ext_def ScopeStart_def)
  then show ?thesis by blast
qed

lemma matched_undone:
  "matched w \<Longrightarrow> run_scope_ops w s = Inr s' \<Longrightarrow> undone s s'"
proof (induction w arbitrary: s s' rule: matched.induct)
  case matched_Nil
  then show ?case by (simp add: undone_refl)
next
  case (matched_Decl w nm ln sfp)
  from matched_Decl.prems obtain a s1 where
    d: "LookupLexDefOrDynScope nm ln False sfp s = Inr (a, s1)" and r: "run_scope_ops w s1 = Inr s'"
    by (auto split: sum.splits)
  show ?case
    by (rule undone_trans [OF undone_Decl [OF d] matched_Decl.IH [OF r]])
next
  case (matched_Scope u w)
  from matched_Scope.prems obtain s1 x s2 where
    ru: "run_scope_ops u (ScopeStart s) = Inr s1" and c: "ScopeCleanup s1 = Inr (x, s2)"
    and rw: "run_scope_ops w s2 = Inr s'"
    by (auto simp: run_scope_ops_append split: sum.splits)
  from ScopeCleanup_undone [OF matched_Scope.IH(1) [OF ru] c] obtain m tb where "s2 = ext s m tb"
    by blast
  then have "undone s s2" by (simp add: undone_ext)
  then show ?case
    by (rule undone_trans [OF _ matched_Scope.IH(2) [OF rw]])
qed

text \<open>
  Claim C1. Run \<^verbatim>\<open>ScopeStart\<close>, then any matched sequence of scope starts, non-dynamic
  declarations and scope ends, then the \<^verbatim>\<open>ScopeCleanup\<close> that matches the first
  \<^verbatim>\<open>ScopeStart\<close>. If no operation fails (no redefinition, no collision with a
  with-scope field), then \<^verbatim>\<open>LookupLexMaybe\<close> returns for every name exactly the binding
  it returned before the \<^verbatim>\<open>ScopeStart\<close>: the shadowed outer Ident if there was one,
  nothing if the name was unbound. The state is the one before, but for the Idents
  allocated inside, which stay in memory and in the identifier index table.
\<close>

theorem scope_end_restores_bindings:
  assumes "matched body" and "run_scope_ops (Start # body @ [End]) s = Inr s'"
  shows "LookupLexMaybe nm s' = LookupLexMaybe nm s \<and>
         (\<exists>m tb. s' = s\<lparr>ident_mem := ident_mem s @ m, identtable := identtable s @ tb\<rparr>)"
proof -
  from assms(2) obtain s1 x where
    ru: "run_scope_ops body (ScopeStart s) = Inr s1" and c: "ScopeCleanup s1 = Inr (x, s')"
    by (auto simp: run_scope_ops_append split: sum.splits)
  from ScopeCleanup_undone [OF matched_undone [OF assms(1) ru] c] obtain m tb where
    "s' = ext s m tb"
    by blast
  then show ?thesis
    by (auto simp: ext_def LookupLexMaybe_def)
qed

theorem scope_end_restores_bindings_witness:
  "matched [Decl ''x'' 2 None, Start, Decl ''y'' 3 None, End, Decl ''z'' 4 None] \<and>
   run_scope_ops (Start # [Decl ''x'' 2 None, Start, Decl ''y'' 3 None, End, Decl ''z'' 4 None] @ [End]) st_x
     = Inr (st_x\<lparr>ident_mem := [Ident_new ''x'' 1 0 0, (Ident_new ''x'' 2 1 1)\<lparr>prev := Some 0\<rparr>,
                                  Ident_new ''y'' 3 2 2, Ident_new ''z'' 4 3 1],
                    identtable := [0, 1, 2, 3]\<rparr>) \<and>
   LookupLexMaybe ''x'' st_x = Some 0 \<and>
   LookupLexMaybe ''x'' (st_x\<lparr>ident_mem := [Ident_new ''x'' 1 0 0, (Ident_new ''x'' 2 1 1)\<lparr>prev := Some 0\<rparr>,
                                  Ident_new ''y'' 3 2 2, Ident_new ''z'' 4 3 1],
                    identtable := [0, 1, 2, 3]\<rparr>) = Some 0"
proof -
  have m: "matched [Decl ''x'' 2 None, Start, Decl ''y'' 3 None, End, Decl ''z'' 4 None]"
    using matched_Decl [OF matched_Scope [OF matched_Decl [OF matched_Nil] matched_Decl [OF matched_Nil]]]
    by simp
  have r: "run_scope_ops (Start # [Decl ''x'' 2 None, Start, Decl ''y'' 3 None, End, Decl ''z'' 4 None] @ [End]) st_x
     = Inr (st_x\<lparr>ident_mem := [Ident_new ''x'' 1 0 0, (Ident_new ''x'' 2 1 1)\<lparr>prev := Some 0\<rparr>,
                                  Ident_new ''y'' 3 2 2, Ident_new ''z'' 4 3 1],
                    identtable := [0, 1, 2, 3]\<rparr>)"
    by (simp add: ScopeStart_def LookupLexDefOrDynScope_def LookupWithStruct_def FieldUse_def
          ScopeCleanup_def pop_idents.simps pop_ident_def deref_def Let_def
          st_x_def SymbolTable_new_def Ident_new_def)
  have x: "LookupLexMaybe ''x'' st_x = Some 0"
    by (simp add: LookupLexMaybe_def st_x_def SymbolTable_new_def)
  show ?thesis
    using scope_end_restores_bindings [OF m r, of "''x''"] m r x by simp
qed

section \<open>An entity's index is its position in the index table\<close>

lemma table_ok_Nil: "table_ok [] mem"
  by (simp add: table_ok_def)

lemma table_ok_append_mem: "table_ok tbl mem \<Longrightarrow> table_ok tbl (mem @ m)"
  by (auto simp: table_ok_def deref_def nth_append split: if_splits)

lemma table_ok_push:
  "table_ok tbl mem \<Longrightarrow> idx obj = of_nat (length tbl) \<Longrightarrow>
     table_ok (tbl @ [length mem]) (mem @ [obj])"
  by (auto simp: table_ok_def deref_def nth_append less_Suc_eq split: if_splits)

lemma table_ok_update:
  "table_ok tbl mem \<Longrightarrow> deref mem a = Some old \<Longrightarrow> idx obj = idx old \<Longrightarrow>
     table_ok tbl (mem[a := obj])"
  by (auto simp: table_ok_def deref_def nth_list_update split: if_splits)

lemma idx_inv_new: "idx_inv SymbolTable_new"
  by (simp add: idx_inv_def SymbolTable_new_def table_ok_Nil)

lemma tables_grow_refl: "tables_grow s s"
  by (simp add: tables_grow_def)

lemma inv_LookupLexDefOrDynScope:
  "idx_inv s \<Longrightarrow> s' = state_of (LookupLexDefOrDynScope nm ln dynscope sfp s) \<Longrightarrow>
     idx_inv s' \<and> tables_grow s s'"
  apply (simp add: LookupLexDefOrDynScope_def state_of_def Let_def
               split: option.splits sum.splits prod.splits if_splits)
  apply (auto simp: idx_inv_def tables_grow_def Ident_new_def
              intro: table_ok_append_mem intro!: table_ok_push)
  done

lemma same_tables_inv: "idx_inv s \<Longrightarrow> same_tables s s' \<Longrightarrow> idx_inv s' \<and> tables_grow s s'"
  by (simp add: same_tables_def idx_inv_def tables_grow_def)

lemma same_tables_pop_ident: "same_tables s (pop_ident s obj)"
  by (simp add: same_tables_def pop_ident_def split: option.splits)

lemma same_tables_trans: "same_tables s s1 \<Longrightarrow> same_tables s1 s2 \<Longrightarrow> same_tables s s2"
  by (simp add: same_tables_def)

lemma same_tables_pop_idents:
  "same_tables s (case pop_idents lvl s of Inl (e, r) \<Rightarrow> r | Inr r \<Rightarrow> r)"
proof (induction lvl s rule: pop_idents.induct)
  case (1 lvl s)
  show ?case
  proof (cases "lvl < length (identstack s)")
    case False
    then show ?thesis by (simp add: pop_idents_stop same_tables_def)
  next
    case True
    show ?thesis
    proof (cases "deref (ident_mem s) (last (identstack s))")
      case None
      with True show ?thesis by (simp add: pop_idents.simps [of lvl s] same_tables_def)
    next
      case (Some obj)
      show ?thesis
        using same_tables_trans [OF same_tables_pop_ident "1.IH" [OF True Some]]
        by (simp add: pop_idents_go [OF True Some])
    qed
  qed
qed

lemma same_tables_ScopeCleanup: "same_tables s (state_of (ScopeCleanup s))"
  using same_tables_pop_idents [of s "last (scopelevels s)"]
  by (auto simp: ScopeCleanup_def state_of_def Let_def same_tables_def split: sum.splits)

lemma same_tables_AddWithStruct: "same_tables s (state_of (AddWithStruct ty ident s))"
  by (simp add: AddWithStruct_def state_of_def same_tables_def)

lemma same_tables_ScopeStart: "same_tables s (ScopeStart s)"
  by (simp add: ScopeStart_def same_tables_def)

lemma same_tables_UnregisterStruct: "same_tables s (state_of (UnregisterStruct st s))"
  by (simp add: UnregisterStruct_def state_of_def same_tables_def split: option.splits)

lemma same_tables_UnregisterFun: "same_tables s (state_of (UnregisterFun f s))"
  by (simp add: UnregisterFun_def state_of_def same_tables_def split: option.splits)

lemma same_tables_EndOfInclude: "same_tables s (state_of (EndOfInclude s))"
  by (simp add: EndOfInclude_def state_of_def same_tables_def split: sum.splits)

lemma same_tables_StructUse: "same_tables s (state_of (StructUse nm s))"
  by (simp add: StructUse_def state_of_def same_tables_def map_index_def Let_def
           split: option.splits prod.splits)

lemma inv_StructDecl:
  "idx_inv s \<Longrightarrow> s' = state_of (StructDecl nm s) \<Longrightarrow> idx_inv s' \<and> tables_grow s s'"
  by (auto simp: StructDecl_def state_of_def map_index_def Let_def idx_inv_def tables_grow_def
        Struct_new_def split: option.splits intro!: table_ok_push)

lemma idx_NewFieldUse: "idx (NewFieldUse fld nfo) = idx fld"
  by (simp add: NewFieldUse_def Let_def)

lemma deref_append_length [simp]: "deref (mem @ [x]) (length mem) = Some x"
  by (simp add: deref_def)

lemma inv_FieldDecl:
  "idx_inv s \<Longrightarrow> s' = state_of (FieldDecl nm i st s) \<Longrightarrow> idx_inv s' \<and> tables_grow s s'"
  apply (simp add: FieldDecl_def state_of_def map_index_def Let_def
               split: option.splits prod.splits)
  apply (auto simp: idx_inv_def tables_grow_def SharedField_new_def idx_NewFieldUse
              intro!: table_ok_push intro: table_ok_update)
  done

lemma inv_Function_link:
  "idx_inv s \<Longrightarrow> s' = state_of (Function_link nm na s) \<Longrightarrow> idx_inv s' \<and> tables_grow s s'"
  apply (simp add: Function_link_def state_of_def Let_def split: option.splits prod.splits)
  apply (auto simp: idx_inv_def tables_grow_def Function_new_def
              intro!: table_ok_push intro: table_ok_update)
  done

lemma inv_FunctionDecl:
  "idx_inv s \<Longrightarrow> FunctionDecl nm na s = Some r \<Longrightarrow>
     idx_inv (state_of r) \<and> tables_grow s (state_of r)"
  using inv_Function_link [of s "state_of (Function_link nm na s)" nm na]
  by (auto simp: FunctionDecl_def tables_grow_refl state_of_def [of "Inl _"] state_of_def [of "Inr _"]
           split: option.splits if_splits sum.splits)

lemma apply_op_inv:
  assumes "idx_inv s" and "apply_op op s = Some s'"
  shows "idx_inv s' \<and> tables_grow s s'"
proof (cases op)
  case (OpLookupLexDefOrDynScope nm ln dynscope sfp)
  with assms show ?thesis using inv_LookupLexDefOrDynScope [of s s' nm ln dynscope sfp] by simp
next
  case (OpAddWithStruct ty ident)
  with assms show ?thesis
    using same_tables_inv [OF assms(1) same_tables_AddWithStruct [of s ty ident]] by auto
next
  case OpScopeStart
  with assms show ?thesis using same_tables_inv [OF assms(1) same_tables_ScopeStart] by auto
next
  case OpScopeCleanup
  with assms show ?thesis using same_tables_inv [OF assms(1) same_tables_ScopeCleanup] by auto
next
  case (OpUnregisterStruct st)
  with assms show ?thesis
    using same_tables_inv [OF assms(1) same_tables_UnregisterStruct [of s st]] by auto
next
  case (OpUnregisterFun f)
  with assms show ?thesis
    using same_tables_inv [OF assms(1) same_tables_UnregisterFun [of s f]] by auto
next
  case OpEndOfInclude
  with assms show ?thesis using same_tables_inv [OF assms(1) same_tables_EndOfInclude] by auto
next
  case (OpStructDecl nm)
  with assms show ?thesis using inv_StructDecl [of s s' nm] by simp
next
  case (OpStructUse nm)
  with assms show ?thesis
    using same_tables_inv [OF assms(1) same_tables_StructUse [of s nm]] by auto
next
  case (OpFieldDecl nm i st)
  with assms show ?thesis using inv_FieldDecl [of s s' nm i st] by simp
next
  case (OpFunctionDecl nm na)
  with assms show ?thesis using inv_FunctionDecl [of s nm na] by auto
qed

lemma table_at_idx:
  assumes "table_ok tbl mem" and "i < length tbl" and "length tbl \<le> 2 ^ 31"
    and "deref mem (tbl ! i) = Some e"
  shows "vec_at tbl (idx e) = Some (tbl ! i)"
proof -
  have "idx e = of_nat i"
    using assms(1,2,4) by (auto simp: table_ok_def)
  moreover have "sint (of_nat i :: 32 word) = int i"
    using assms(2,3) by (intro sint_of_nat_int) simp
  ultimately show ?thesis
    using assms(2) by (simp add: vec_at_def)
qed

lemma created_Ident:
  "LookupLexDefOrDynScope nm ln dynscope sfp s = Inr (a, s') \<Longrightarrow>
   length (ident_mem s) < length (ident_mem s') \<Longrightarrow>
     identtable s' = identtable s @ [a] \<and>
     map_option idx (deref (ident_mem s') a) = Some (of_nat (length (identtable s)))"
  by (auto simp: LookupLexDefOrDynScope_def Let_def Ident_new_def
           split: option.splits sum.splits prod.splits if_splits)

lemma created_Struct:
  "StructDecl nm s = Inr (a, s') \<Longrightarrow>
     structtable s' = structtable s @ [a] \<and>
     map_option idx (deref (struct_mem s') a) = Some (of_nat (length (structtable s)))"
  by (auto simp: StructDecl_def map_index_def Let_def Struct_new_def
           split: option.splits if_splits)

lemma created_SharedField:
  "FieldDecl nm i st s = Inr (a, s') \<Longrightarrow> length (field_mem s) < length (field_mem s') \<Longrightarrow>
     fieldtable s' = fieldtable s @ [a] \<and>
     map_option idx (deref (field_mem s') a) = Some (of_nat (length (fieldtable s)))"
  by (auto simp: FieldDecl_def map_index_def Let_def SharedField_new_def idx_NewFieldUse
           split: option.splits if_splits)

lemma created_Function:
  "FunctionDecl nm na s = Some (Inr (a, s')) \<Longrightarrow>
   length (function_mem s) < length (function_mem s') \<Longrightarrow>
     functiontable s' = functiontable s @ [a] \<and>
     map_option idx (deref (function_mem s') a) = Some (of_nat (length (functiontable s)))"
  by (auto simp: FunctionDecl_def Function_link_def Let_def Function_new_def deref_def
           split: option.splits sum.splits if_splits)

lemma run_ops_inv: "idx_inv s \<Longrightarrow> run_ops ops s = Some s' \<Longrightarrow> idx_inv s'"
proof (induction ops arbitrary: s)
  case Nil
  then show ?case by simp
next
  case (Cons op ops)
  from Cons.prems(2) obtain s1 where a: "apply_op op s = Some s1" and r: "run_ops ops s1 = Some s'"
    by (auto split: option.splits)
  from apply_op_inv [OF Cons.prems(1) a] have "idx_inv s1" by simp
  then show ?case using r by (rule Cons.IH)
qed

text \<open>
  Claim C8. Every entry of an index table points to an entity whose \<^verbatim>\<open>idx\<close> is the
  entry's position: this holds in every state the operations reach from the empty table,
  and every operation preserves it and only appends to the index tables (scope cleanup,
  privacy pruning and unregistering leave tables and objects alone). Hence, for a table
  of at most \<open>2\<^sup>3\<^sup>1\<close> entries, where the \<^verbatim>\<open>int\<close> is the position itself,
  \<^verbatim>\<open>table[e.idx]\<close> is \<^verbatim>\<open>e\<close>. An Ident, Struct, SharedField or Function that a
  declaration creates is appended to its table with \<^verbatim>\<open>idx\<close> the position it takes.
\<close>

theorem idx_is_table_position:
  "(run_ops ops SymbolTable_new = Some s0 \<longrightarrow> idx_inv s0) \<and>
   (idx_inv s \<and> apply_op op s = Some s' \<longrightarrow> idx_inv s' \<and> tables_grow s s') \<and>
   (table_ok tbl mem \<and> i < length tbl \<and> length tbl \<le> 2 ^ 31 \<and> deref mem (tbl ! i) = Some e
      \<longrightarrow> vec_at tbl (idx e) = Some (tbl ! i)) \<and>
   (LookupLexDefOrDynScope nm ln dynscope sfp s1 = Inr (a1, s1') \<and>
    length (ident_mem s1) < length (ident_mem s1')
      \<longrightarrow> identtable s1' = identtable s1 @ [a1] \<and>
          map_option idx (deref (ident_mem s1') a1) = Some (of_nat (length (identtable s1)))) \<and>
   (StructDecl nm s2 = Inr (a2, s2')
      \<longrightarrow> structtable s2' = structtable s2 @ [a2] \<and>
          map_option idx (deref (struct_mem s2') a2) = Some (of_nat (length (structtable s2)))) \<and>
   (FieldDecl nm off st s3 = Inr (a3, s3') \<and> length (field_mem s3) < length (field_mem s3')
      \<longrightarrow> fieldtable s3' = fieldtable s3 @ [a3] \<and>
          map_option idx (deref (field_mem s3') a3) = Some (of_nat (length (fieldtable s3)))) \<and>
   (FunctionDecl nm na s4 = Some (Inr (a4, s4')) \<and>
    length (function_mem s4) < length (function_mem s4')
      \<longrightarrow> functiontable s4' = functiontable s4 @ [a4] \<and>
          map_option idx (deref (function_mem s4') a4) = Some (of_nat (length (functiontable s4))))"
proof (intro conjI impI)
  assume "run_ops ops SymbolTable_new = Some s0"
  then show "idx_inv s0" by (rule run_ops_inv [OF idx_inv_new])
next
  assume a: "idx_inv s \<and> apply_op op s = Some s'"
  then show "idx_inv s'" using apply_op_inv [of s op s'] by simp
  from a show "tables_grow s s'" using apply_op_inv [of s op s'] by simp
next
  assume "table_ok tbl mem \<and> i < length tbl \<and> length tbl \<le> 2 ^ 31 \<and> deref mem (tbl ! i) = Some e"
  then show "vec_at tbl (idx e) = Some (tbl ! i)" using table_at_idx [of tbl mem i e] by simp
next
  assume a: "LookupLexDefOrDynScope nm ln dynscope sfp s1 = Inr (a1, s1') \<and>
    length (ident_mem s1) < length (ident_mem s1')"
  then show "identtable s1' = identtable s1 @ [a1]"
    using created_Ident [of nm ln dynscope sfp s1 a1 s1'] by simp
  from a show "map_option idx (deref (ident_mem s1') a1) = Some (of_nat (length (identtable s1)))"
    using created_Ident [of nm ln dynscope sfp s1 a1 s1'] by simp
next
  assume a: "StructDecl nm s2 = Inr (a2, s2')"
  then show "structtable s2' = structtable s2 @ [a2]"
    using created_Struct [of nm s2 a2 s2'] by simp
  from a show "map_option idx (deref (struct_mem s2') a2) = Some (of_nat (length (structtable s2)))"
    using created_Struct [of nm s2 a2 s2'] by simp
next
  assume a: "FieldDecl nm off st s3 = Inr (a3, s3') \<and> length (field_mem s3) < length (field_mem s3')"
  then show "fieldtable s3' = fieldtable s3 @ [a3]"
    using created_SharedField [of nm off st s3 a3 s3'] by simp
  from a show "map_option idx (deref (field_mem s3') a3) = Some (of_nat (length (fieldtable s3)))"
    using created_SharedField [of nm off st s3 a3 s3'] by simp
next
  assume a: "FunctionDecl nm na s4 = Some (Inr (a4, s4')) \<and>
    length (function_mem s4) < length (function_mem s4')"
  then show "functiontable s4' = functiontable s4 @ [a4]"
    using created_Function [of nm na s4 a4 s4'] by simp
  from a show "map_option idx (deref (function_mem s4') a4) = Some (of_nat (length (functiontable s4)))"
    using created_Function [of nm na s4 a4 s4'] by simp
qed

theorem idx_is_table_position_witness:
  "run_ops [OpScopeStart, OpLookupLexDefOrDynScope ''x'' 1 False None] SymbolTable_new = Some st_x \<and>
   idx_inv st_x \<and>
   apply_op OpScopeCleanup st_x = Some (SymbolTable_new\<lparr>identtable := [0], ident_mem := [Ident_new ''x'' 1 0 0]\<rparr>) \<and>
   idx_inv (SymbolTable_new\<lparr>identtable := [0], ident_mem := [Ident_new ''x'' 1 0 0]\<rparr>) \<and>
   tables_grow st_x (SymbolTable_new\<lparr>identtable := [0], ident_mem := [Ident_new ''x'' 1 0 0]\<rparr>) \<and>
   vec_at (identtable st_x) (idx (Ident_new ''x'' 1 0 0)) = Some 0 \<and>
   LookupLexDefOrDynScope ''x'' 1 False None (ScopeStart SymbolTable_new) = Inr (0, st_x) \<and>
   identtable st_x = identtable (ScopeStart SymbolTable_new) @ [0] \<and>
   StructDecl ''T'' st_x = Inr (0, st_x\<lparr>structs := [(''T'', Some 0)], structtable := [0],
                                         struct_mem := [Struct_new ''T'' 0]\<rparr>) \<and>
   map_option idx (deref [Struct_new ''T'' 0] 0) = Some 0 \<and>
   FieldDecl ''x'' 0 0 (st_x\<lparr>structs := [(''T'', Some 0)], structtable := [0],
                               struct_mem := [Struct_new ''T'' 0]\<rparr>)
     = Inr (0, st_x\<lparr>structs := [(''T'', Some 0)], structtable := [0],
                     struct_mem := [Struct_new ''T'' 0], fields' := [(''x'', Some 0)],
                     fieldtable := [0],
                     field_mem := [NewFieldUse (SharedField_new ''x'' 0) (FieldOffset_new 0 0)]\<rparr>) \<and>
   map_option idx (deref [NewFieldUse (SharedField_new ''x'' 0) (FieldOffset_new 0 0)] 0) = Some 0 \<and>
   FunctionDecl ''f'' 1 SymbolTable_new = Some (Inr (0, st_f)) \<and>
   functiontable st_f = functiontable SymbolTable_new @ [0]"
proof -
  let ?s5 = "SymbolTable_new\<lparr>identtable := [0], ident_mem := [Ident_new ''x'' 1 0 0]\<rparr>"
  let ?s6 = "st_x\<lparr>structs := [(''T'', Some 0)], structtable := [0], struct_mem := [Struct_new ''T'' 0]\<rparr>"
  let ?s7 = "st_x\<lparr>structs := [(''T'', Some 0)], structtable := [0],
                     struct_mem := [Struct_new ''T'' 0], fields' := [(''x'', Some 0)],
                     fieldtable := [0],
                     field_mem := [NewFieldUse (SharedField_new ''x'' 0) (FieldOffset_new 0 0)]\<rparr>"
  have r: "run_ops [OpScopeStart, OpLookupLexDefOrDynScope ''x'' 1 False None] SymbolTable_new = Some st_x"
    by (simp add: st_x_reached state_of_def)
  have c: "apply_op OpScopeCleanup st_x = Some ?s5"
    by (simp add: ScopeCleanup_def state_of_def pop_idents.simps pop_ident_def deref_def Let_def
          st_x_def SymbolTable_new_def Ident_new_def)
  have d: "deref (ident_mem st_x) (identtable st_x ! 0) = Some (Ident_new ''x'' 1 0 0)"
    by (simp add: st_x_def SymbolTable_new_def deref_def)
  have sd: "StructDecl ''T'' st_x = Inr (0, ?s6)"
    by (simp add: StructDecl_def map_index_def Let_def st_x_def SymbolTable_new_def)
  have fd: "FieldDecl ''x'' 0 0 ?s6 = Inr (0, ?s7)"
    by (simp add: FieldDecl_def map_index_def Let_def deref_def st_x_def SymbolTable_new_def
          Struct_new_def)
  have fl: "length (field_mem ?s6) < length (field_mem ?s7)"
    by (simp add: st_x_def SymbolTable_new_def)
  have il: "length (ident_mem (ScopeStart SymbolTable_new)) < length (ident_mem st_x)"
    by (simp add: st_x_def SymbolTable_new_def ScopeStart_def)
  have ml: "length (function_mem SymbolTable_new) < length (function_mem st_f)"
    by (simp add: st_f_def SymbolTable_new_def)
  note t = idx_is_table_position [THEN conjunct1, rule_format]
  note u = idx_is_table_position [THEN conjunct2, THEN conjunct1, rule_format]
  note v = idx_is_table_position [THEN conjunct2, THEN conjunct2, THEN conjunct1, rule_format]
  note w1 = idx_is_table_position
    [THEN conjunct2, THEN conjunct2, THEN conjunct2, THEN conjunct1, rule_format]
  note w2 = idx_is_table_position
    [THEN conjunct2, THEN conjunct2, THEN conjunct2, THEN conjunct2, THEN conjunct1, rule_format]
  note w3 = idx_is_table_position
    [THEN conjunct2, THEN conjunct2, THEN conjunct2, THEN conjunct2, THEN conjunct2,
     THEN conjunct1, rule_format]
  note w4 = idx_is_table_position
    [THEN conjunct2, THEN conjunct2, THEN conjunct2, THEN conjunct2, THEN conjunct2,
     THEN conjunct2, rule_format]
  have inv: "idx_inv st_x" using t r by blast
  have tbl: "table_ok (identtable st_x) (ident_mem st_x)" using inv by (simp add: idx_inv_def)
  have len: "0 < length (identtable st_x) \<and> length (identtable st_x) \<le> 2 ^ 31"
    by (simp add: st_x_def SymbolTable_new_def)
  have p2: "idx_inv ?s5 \<and> tables_grow st_x ?s5" using u inv c by blast
  have p3: "vec_at (identtable st_x) (idx (Ident_new ''x'' 1 0 0)) = Some (identtable st_x ! 0)"
    using v tbl len d by blast
  have p4: "identtable st_x = identtable (ScopeStart SymbolTable_new) @ [0]"
    using w1 st_x_reached il by blast
  have p5: "map_option idx (deref (struct_mem ?s6) 0) = Some (of_nat (length (structtable st_x)))"
    using w2 sd by blast
  have p6: "map_option idx (deref (field_mem ?s7) 0) = Some (of_nat (length (fieldtable ?s6)))"
    using w3 fd fl by blast
  have p6': "map_option idx (deref [NewFieldUse (SharedField_new ''x'' 0) (FieldOffset_new 0 0)] 0) = Some 0"
    using p6 by (simp add: st_x_def SymbolTable_new_def)
  have p7: "functiontable st_f = functiontable SymbolTable_new @ [0]"
    using w4 st_f_reached ml by blast
  have i0: "identtable st_x ! 0 = 0" by (simp add: st_x_def SymbolTable_new_def)
  have p5': "map_option idx (deref [Struct_new ''T'' 0] 0) = Some 0"
    using p5 by (simp add: st_x_def SymbolTable_new_def)
  show ?thesis
    using r inv c p2 p3 p4 sd p5' fd p6' p7 st_x_reached st_f_reached i0 by simp
qed

section \<open>Privacy pruning\<close>

text \<open>
  \<^verbatim>\<open>EndOfInclude\<close> removes exactly the live bindings flagged private, provided none of
  them has a \<^verbatim>\<open>prev\<close>; on a private Ident that shadows another the assertion fails.
  The operations of the table never set the flag, so whether such an Ident can exist
  when \<^verbatim>\<open>EndOfInclude\<close> runs is decided by the code that sets it, outside
  \<^verbatim>\<open>idents.h\<close>.
\<close>

lemma prune_private_keeps:
  "list_all (\<lambda>it. case deref mem (snd it) of
                      None \<Rightarrow> False
                    | Some obj \<Rightarrow> isprivate obj \<longrightarrow> prev obj = None) al \<Longrightarrow>
   prune_private mem al
     = Inr (filter (\<lambda>it. case deref mem (snd it) of
                            None \<Rightarrow> False
                          | Some obj \<Rightarrow> \<not> isprivate obj) al)"
  by (induction al) (auto split: option.splits)

lemma EndOfInclude_prunes:
  "list_all (\<lambda>it. case deref (ident_mem s) (snd it) of
                      None \<Rightarrow> False
                    | Some obj \<Rightarrow> isprivate obj \<longrightarrow> prev obj = None) (idents s) \<Longrightarrow>
   EndOfInclude s
     = Inr ((), s\<lparr>idents := filter (\<lambda>it. case deref (ident_mem s) (snd it) of
                                              None \<Rightarrow> False
                                            | Some obj \<Rightarrow> \<not> isprivate obj) (idents s)\<rparr>)"
  by (simp add: EndOfInclude_def prune_private_keeps)

lemma EndOfInclude_private_shadow:
  "EndOfInclude st_private_shadow = Inl (AssertionFailure, st_private_shadow)"
  by (simp add: EndOfInclude_def deref_def st_private_shadow_def st_x_def SymbolTable_new_def
        Ident_new_def)

lemma same_tables_none_private: "same_tables s s' \<Longrightarrow> none_private s \<Longrightarrow> none_private s'"
  by (simp add: same_tables_def none_private_def)

lemma none_private_LookupLexDefOrDynScope:
  "none_private s \<Longrightarrow> none_private (state_of (LookupLexDefOrDynScope nm ln dynscope sfp s))"
  by (auto simp: LookupLexDefOrDynScope_def state_of_def Let_def none_private_def Ident_new_def
           split: option.splits sum.splits prod.splits if_splits)

lemma none_private_other:
  "none_private s \<Longrightarrow> none_private (state_of (StructDecl nm s))"
  "none_private s \<Longrightarrow> none_private (state_of (FieldDecl nm i st s))"
  "none_private s \<Longrightarrow> none_private (state_of (Function_link nm na s))"
  by (auto simp: StructDecl_def FieldDecl_def Function_link_def state_of_def Let_def
        none_private_def map_index_def split: option.splits sum.splits prod.splits if_splits)

lemma none_private_FunctionDecl:
  "none_private s \<Longrightarrow> FunctionDecl nm na s = Some r \<Longrightarrow> none_private (state_of r)"
  using none_private_other(3) [of s nm na]
  by (auto simp: FunctionDecl_def state_of_def [of "Inl _"] state_of_def [of "Inr _"]
           split: option.splits if_splits sum.splits)

lemma none_private_apply_op:
  assumes "none_private s" and "apply_op op s = Some s'"
  shows "none_private s'"
proof (cases op)
  case (OpLookupLexDefOrDynScope nm ln dynscope sfp)
  with assms show ?thesis using none_private_LookupLexDefOrDynScope [of s nm ln dynscope sfp] by auto
next
  case (OpAddWithStruct ty ident)
  with assms show ?thesis
    using same_tables_none_private [OF same_tables_AddWithStruct [of s ty ident]] by auto
next
  case OpScopeStart
  with assms show ?thesis using same_tables_none_private [OF same_tables_ScopeStart [of s]] by auto
next
  case OpScopeCleanup
  with assms show ?thesis using same_tables_none_private [OF same_tables_ScopeCleanup [of s]] by auto
next
  case (OpUnregisterStruct st)
  with assms show ?thesis
    using same_tables_none_private [OF same_tables_UnregisterStruct [of s st]] by auto
next
  case (OpUnregisterFun f)
  with assms show ?thesis
    using same_tables_none_private [OF same_tables_UnregisterFun [of s f]] by auto
next
  case OpEndOfInclude
  with assms show ?thesis using same_tables_none_private [OF same_tables_EndOfInclude [of s]] by auto
next
  case (OpStructDecl nm)
  with assms show ?thesis using none_private_other(1) [of s nm] by auto
next
  case (OpStructUse nm)
  with assms show ?thesis
    using same_tables_none_private [OF same_tables_StructUse [of s nm]] by auto
next
  case (OpFieldDecl nm i st)
  with assms show ?thesis using none_private_other(2) [of s nm i st] by auto
next
  case (OpFunctionDecl nm na)
  with assms show ?thesis using none_private_FunctionDecl [of s nm na] by auto
qed

lemma none_private_reachable: "run_ops ops SymbolTable_new = Some s \<Longrightarrow> none_private s"
proof -
  have "none_private s0 \<Longrightarrow> run_ops ops s0 = Some s \<Longrightarrow> none_private s" for s0
  proof (induction ops arbitrary: s0)
    case Nil
    then show ?case by simp
  next
    case (Cons op ops)
    from Cons.prems(2) obtain s1 where a: "apply_op op s0 = Some s1" and r: "run_ops ops s1 = Some s"
      by (auto split: option.splits)
    show ?case by (rule Cons.IH [OF none_private_apply_op [OF Cons.prems(1) a] r])
  qed
  moreover have "none_private SymbolTable_new"
    by (simp add: none_private_def SymbolTable_new_def)
  ultimately show "run_ops ops SymbolTable_new = Some s \<Longrightarrow> none_private s" by blast
qed

end
